theory Spec2Isabelle
  imports Main "HOL-Library.AList" "HOL-Library.Char_ord" "HOL-Library.List_Lexorder"
begin

text \<open>
  A model of \<open>file_organizer\<close> (\<open>src/file_organizer.py\<close>): the function that sorts
  the regular files of a directory into one subdirectory per category of extension and
  returns a report. The file system is a value that the function takes and returns:
  what lies at the source path, with the listing of the directory and of its
  subdirectories, their permissions, and the names that are symbolic links to the
  directory itself. Exceptions are values, the two handlers of the function turn them
  into strings, and the collision loop is a partial function, so that its termination is
  a theorem. What the platform decides (the description of an exception, the lowering of
  characters beyond ASCII, the paths it refuses as too long) is a parameter.
\<close>

section \<open>The platform\<close>

text \<open>
  The exceptions of the model: \<open>PermissionError\<close>, which the function handles apart, and
  three other subclasses of \<open>OSError\<close> with the names they carry, and \<open>OSError\<close> itself
  with \<open>ENAMETOOLONG\<close> and the path below the source directory that was refused.
\<close>

datatype exn =
    PermissionError
  | FileExistsError string
  | FileNotFoundError string
  | NotADirectoryError string string
  | NameTooLongError "string list"

text \<open>
  \<open>str_e\<close> is \<open>str(e)\<close>. \<open>lower_other\<close> is \<open>str.lower()\<close> on a string that has a
  character outside ASCII, where the Unicode tables decide. \<open>too_long\<close> tells whether
  \<open>os.stat\<close> refuses the path, given by its components below the source directory, with
  \<open>ENAMETOOLONG\<close>.
\<close>

record platform =
  str_e :: "exn \<Rightarrow> string"
  lower_other :: "string \<Rightarrow> string"
  too_long :: "string list \<Rightarrow> bool"

section \<open>Strings\<close>

text \<open>
  A Python \<open>str\<close> is modelled as a \<open>string\<close> holding its UTF-8 bytes. The
  dot, the underscore, the digits and the extensions of the category table are ASCII, and
  an ASCII byte never occurs inside a multi-byte sequence, so searching for the dot and
  slicing at it agree with Python's code-point view. On a string of ASCII characters
  \<open>str.lower()\<close> folds the letters \<open>A\<close> to \<open>Z\<close> and leaves the rest; on any other
  string it is what the platform gives.
\<close>

definition lower_char :: "char \<Rightarrow> char" where
  "lower_char c =
     (case map_of (zip ''ABCDEFGHIJKLMNOPQRSTUVWXYZ'' ''abcdefghijklmnopqrstuvwxyz'') c of
        Some l \<Rightarrow> l
      | None \<Rightarrow> c)"

definition is_ascii :: "char \<Rightarrow> bool" where
  "is_ascii c \<longleftrightarrow> \<not> digit7 c"

definition lower :: "platform \<Rightarrow> string \<Rightarrow> string" where
  "lower pf s = (if list_all is_ascii s then map lower_char s else lower_other pf s)"

text \<open>\<open>s.rfind(c)\<close>: the highest index at which \<open>c\<close> occurs, or \<open>-1\<close>.\<close>

fun rfind :: "string \<Rightarrow> char \<Rightarrow> int" where
  "rfind [] c = - 1"
| "rfind (x # xs) c =
     (let r = rfind xs c in if 0 \<le> r then r + 1 else if x = c then 0 else - 1)"

text \<open>
  \<open>PurePath.suffix\<close> and \<open>PurePath.stem\<close> of a final path component, as
  \<open>pathlib\<close> computes them up to Python 3.13:
  \<^verbatim>\<open>
    i = name.rfind('.')
    if 0 < i < len(name) - 1: return name[i:]     (stem: name[:i])
    else: return ''                               (stem: name)
  \<close>
\<close>

definition suffix :: "string \<Rightarrow> string" where
  "suffix name =
     (let i = rfind name (CHR ''.'') in
      if 0 < i \<and> i < int (length name) - 1 then drop (nat i) name else [])"

definition stem :: "string \<Rightarrow> string" where
  "stem name =
     (let i = rfind name (CHR ''.'') in
      if 0 < i \<and> i < int (length name) - 1 then take (nat i) name else name)"

text \<open>\<open>str(n)\<close> for a non-negative integer: its decimal digits.\<close>

definition digit :: "nat \<Rightarrow> char" where
  "digit d = ''0123456789'' ! d"

fun str_nat :: "nat \<Rightarrow> string" where
  "str_nat n = (if n < 10 then [digit n] else str_nat (n div 10) @ [digit (n mod 10)])"

declare str_nat.simps [simp del]

text \<open>\<open>sep.join(xs)\<close>.\<close>

fun join :: "string \<Rightarrow> string list \<Rightarrow> string" where
  "join sep [] = []"
| "join sep [x] = x"
| "join sep (x # y # ys) = x @ sep @ join sep (y # ys)"

section \<open>The category table and the lookup\<close>

definition file_categories :: "(string \<times> string list) list" where
  "file_categories =
    [(''Word Documents'', [''.doc'', ''.docx'', ''.rtf'', ''.odt'']),
     (''Excel Documents'', [''.xls'', ''.xlsx'', ''.csv'', ''.ods'']),
     (''PowerPoint Documents'', [''.ppt'', ''.pptx'', ''.odp'']),
     (''PDF Documents'', [''.pdf'']),
     (''Images'', [''.jpg'', ''.jpeg'', ''.png'', ''.gif'', ''.bmp'', ''.tiff'', ''.svg'', ''.webp'']),
     (''Videos'', [''.mp4'', ''.avi'', ''.mkv'', ''.mov'', ''.wmv'', ''.flv'', ''.webm'']),
     (''Audio'', [''.mp3'', ''.wav'', ''.flac'', ''.aac'', ''.ogg'', ''.wma'']),
     (''Archives'', [''.zip'', ''.rar'', ''.7z'', ''.tar'', ''.gz'']),
     (''Text Files'', [''.txt'', ''.md'', ''.log'']),
     (''Code Files'', [''.py'', ''.js'', ''.html'', ''.css'', ''.java'', ''.cpp'', ''.c'', ''.php'']),
     (''Executables'', [''.exe'', ''.msi'', ''.bat'', ''.cmd'', ''.sh'', ''.run'', ''.deb'', ''.rpm'',
        ''.appimage''])]"

text \<open>
  The inner loop over \<open>file_categories.items()\<close>, in the order of the dictionary's
  declaration, leaving at the first hit; \<open>None\<close> when the loop ends without one.
\<close>

fun find_category :: "string \<Rightarrow> (string \<times> string list) list \<Rightarrow> string option" where
  "find_category file_extension [] = None"
| "find_category file_extension ((category, extensions) # rest) =
     (if file_extension \<in> set extensions then Some category
      else find_category file_extension rest)"

text \<open>
  The folder of a file: the lookup on the lowered suffix, and \<open>'Other Files'\<close> when
  \<open>not target_folder\<close> holds (no hit, or an empty category name).
\<close>

definition target_folder_of :: "platform \<Rightarrow> string \<Rightarrow> string" where
  "target_folder_of pf name =
     (let file_extension = lower pf (suffix name) in
      case find_category file_extension file_categories of
        None \<Rightarrow> ''Other Files''
      | Some category \<Rightarrow> if category = [] then ''Other Files'' else category)"

section \<open>The directory tree\<close>

text \<open>
  What \<open>os.stat\<close> finds at \<open>Path(source_directory)\<close>: an error that \<open>exists()\<close> and
  \<open>is_dir()\<close> raise again (any but \<open>ENOENT\<close>, \<open>ENOTDIR\<close>, \<open>EBADF\<close> and \<open>ELOOP\<close>,
  which they read as \<open>False\<close>), nothing, or a node. A node is a regular file, with the
  flag that it may be read and its content, or a directory with its permissions and its
  listing, in the order in which \<open>iterdir\<close> enumerates it. The flags of a node say what
  the process may do. A listing stands for a directory when its names are distinct; the
  operations are total on every listing and read a name at its first occurrence. Names
  are compared as they are written, as a case-sensitive file system does.

  Among symbolic links, those that lie in the source directory and resolve to that
  directory itself are modelled: their names are the list \<open>links\<close>, which no operation of
  the function changes. \<open>is_file()\<close> and \<open>exists()\<close> follow links, so any other link
  that resolves to a file or to a directory is what it resolves to for them; a link that
  resolves to nothing is not modelled.
\<close>

record perms =
  can_read :: bool
  can_write :: bool
  can_search :: bool

datatype node = File bool string | Dir perms "(string \<times> node) list"

type_synonym listing = "(string \<times> node) list"

datatype path_stat = Raises exn | Missing | Found node

text \<open>The permissions of a directory that \<open>mkdir\<close> has made.\<close>

definition rwx :: perms where
  "rwx = \<lparr>can_read = True, can_write = True, can_search = True\<rparr>"

fun is_file :: "node \<Rightarrow> bool" where
  "is_file (File readable content) = True"
| "is_file (Dir p sub) = False"

text \<open>The names of the regular files of a listing, in its order.\<close>

definition iterdir_files :: "listing \<Rightarrow> string list" where
  "iterdir_files es = map fst (filter (\<lambda>(n, nd). is_file nd) es)"

text \<open>
  The error with which \<open>os.stat\<close> ends before it looks the last component of \<open>path\<close> up in
  a directory with the permissions \<open>p\<close>: the directory may not be searched, or the
  platform refuses the path.
\<close>

definition child_error :: "platform \<Rightarrow> perms \<Rightarrow> string list \<Rightarrow> exn option" where
  "child_error pf p path =
     (if \<not> can_search p then Some PermissionError
      else if too_long pf path then Some (NameTooLongError path)
      else None)"

text \<open>
  \<open>[f for f in source_path.iterdir() if f.is_file()]\<close>, as names. \<open>iterdir\<close> needs the
  permission to read the directory; it yields the entries and the links, and
  \<open>is_file()\<close> is asked of each in turn, the first error ending the scan. The argument of
  \<open>is_file_each\<close> pairs each name with what \<open>is_file()\<close> answers when \<open>os.stat\<close> does
  not fail.
\<close>

fun is_file_each :: "platform \<Rightarrow> perms \<Rightarrow> (string \<times> bool) list \<Rightarrow> exn + string list" where
  "is_file_each pf p [] = Inr []"
| "is_file_each pf p ((name, regular) # rest) =
     (case child_error pf p [name] of
        Some e \<Rightarrow> Inl e
      | None \<Rightarrow>
          (case is_file_each pf p rest of
             Inl e \<Rightarrow> Inl e
           | Inr files \<Rightarrow> Inr (if regular then name # files else files)))"

definition scan :: "platform \<Rightarrow> string list \<Rightarrow> perms \<Rightarrow> listing \<Rightarrow> exn + string list" where
  "scan pf links p es =
     (if \<not> can_read p then Inl PermissionError
      else is_file_each pf p
             (map (\<lambda>(n, nd). (n, is_file nd)) es @ map (\<lambda>l. (l, False)) links))"

text \<open>\<open>(source_path / folder).exists()\<close>: true for a file, a directory and a link.\<close>

definition dir_exists ::
  "platform \<Rightarrow> string list \<Rightarrow> perms \<Rightarrow> listing \<Rightarrow> string \<Rightarrow> exn + bool" where
  "dir_exists pf links p es folder =
     (case child_error pf p [folder] of
        Some e \<Rightarrow> Inl e
      | None \<Rightarrow> Inr (folder \<in> set links \<or> map_of es folder \<noteq> None))"

text \<open>
  \<open>(source_path / folder / name).exists()\<close>. When \<open>folder\<close> is a regular file,
  \<open>os.stat\<close> fails with \<open>ENOTDIR\<close>, which \<open>exists\<close> reads as \<open>False\<close>. When
  \<open>folder\<close> is a link to the source directory, the name is looked up there.
\<close>

definition target_exists ::
  "platform \<Rightarrow> string list \<Rightarrow> perms \<Rightarrow> listing \<Rightarrow> string \<Rightarrow> string \<Rightarrow> exn + bool" where
  "target_exists pf links p es folder name =
     (case child_error pf p [folder] of
        Some e \<Rightarrow> Inl e
      | None \<Rightarrow>
          if folder \<in> set links then
            (case child_error pf p [folder, name] of
               Some e \<Rightarrow> Inl e
             | None \<Rightarrow> Inr (name \<in> set links \<or> map_of es name \<noteq> None))
          else
            (case map_of es folder of
               Some (Dir q sub) \<Rightarrow>
                 (case child_error pf q [folder, name] of
                    Some e \<Rightarrow> Inl e
                  | None \<Rightarrow> Inr (map_of sub name \<noteq> None))
             | Some (File readable content) \<Rightarrow> Inr False
             | None \<Rightarrow> Inr False))"

text \<open>
  \<open>(source_path / folder).mkdir(exist_ok=True)\<close>. \<open>os.mkdir\<close> needs the permissions to
  search and to write the source directory. When it fails, \<open>mkdir\<close> raises the error
  again unless the path is a directory. The new directory is empty and has every
  permission.
\<close>

definition mkdir ::
  "platform \<Rightarrow> string list \<Rightarrow> perms \<Rightarrow> listing \<Rightarrow> string \<Rightarrow> exn + listing" where
  "mkdir pf links p es folder =
     (case child_error pf p [folder] of
        Some e \<Rightarrow> Inl e
      | None \<Rightarrow>
          if folder \<in> set links then Inr es
          else
            (case map_of es folder of
               Some (Dir q sub) \<Rightarrow> Inr es
             | Some (File readable content) \<Rightarrow> Inl (FileExistsError folder)
             | None \<Rightarrow>
                 if can_write p then Inr (es @ [(folder, Dir rwx [])])
                 else Inl PermissionError))"

text \<open>
  \<open>shutil.move(source_path / name, source_path / folder / new_name)\<close> for a regular
  file \<open>name\<close> of the scan. \<open>os.rename\<close> needs the permissions to search and to write
  both directories. When it fails, \<open>shutil.move\<close> copies the file to the destination
  and then unlinks the source: the copy cannot read a file that may not be read, it
  cannot create the destination in a directory that may not be written or under a path
  that is not a directory, and the unlink fails in a source directory that may not be
  written, after the copy was made. Under a link to the source directory the
  destination lies in the source directory. The function returns the exception raised,
  if any, and the listing the call leaves behind. The main loop calls it only with names
  the scan found as regular files; in a listing with distinct names such a name is still
  a regular file when its turn comes, so the last two branches are there to make the
  function total. A new entry is put at the end of its listing; where it lands in the
  order of enumeration is the platform's choice and no property below depends on it.
\<close>

definition shutil_move ::
  "string list \<Rightarrow> perms \<Rightarrow> listing \<Rightarrow> string \<Rightarrow> string \<Rightarrow> string \<Rightarrow> exn option \<times> listing" where
  "shutil_move links p es name folder new_name =
     (if \<not> can_search p then (Some PermissionError, es)
      else
        (case map_of es name of
           Some (File readable content) \<Rightarrow>
             if folder \<in> set links then
               (if can_write p then
                  (None, AList.update new_name (File readable content) (AList.delete name es))
                else (Some PermissionError, es))
             else
               (case map_of es folder of
                  Some (Dir q sub) \<Rightarrow>
                    if can_write p \<and> can_search q \<and> can_write q then
                      (None,
                       AList.update folder
                         (Dir q (AList.update new_name (File readable content) sub))
                         (AList.delete name es))
                    else if readable \<and> can_search q \<and> can_write q then
                      (Some PermissionError,
                       AList.update folder
                         (Dir q (AList.update new_name (File readable content) sub)) es)
                    else (Some PermissionError, es)
                | Some (File readable' other) \<Rightarrow>
                    (if readable then Some (NotADirectoryError folder new_name)
                     else Some PermissionError, es)
                | None \<Rightarrow>
                    (if readable then Some (FileNotFoundError folder)
                     else Some PermissionError, es))
         | Some (Dir q sub) \<Rightarrow> (Some (FileNotFoundError name), es)
         | None \<Rightarrow> (Some (FileNotFoundError name), es)))"

section \<open>The organizer\<close>

text \<open>A record of \<open>file_moves\<close>: the keys \<open>'file'\<close>, \<open>'from'\<close>, \<open>'to'\<close>, \<open>'new_name'\<close>.\<close>

record move =
  move_file :: string
  move_from :: string
  move_to :: string
  move_new_name :: string

text \<open>The variables the main loop updates, with the listing of the source directory.\<close>

record state =
  entries :: listing
  organized_count :: nat
  created_folders :: "string set"
  file_moves :: "move list"

text \<open>
  The loop that handles duplicate names:
  \<^verbatim>\<open>
    while target_file_path.exists():
        new_name = f"{original_name}_{counter}{extension}"
        target_file_path = target_dir / new_name
        counter += 1
  \<close>
  It returns the name of the final \<open>target_file_path\<close>, or the exception that
  \<open>exists()\<close> raised; \<open>None\<close> stands for a loop that never ends.
\<close>

partial_function (option) dedup_loop ::
  "platform \<Rightarrow> string list \<Rightarrow> perms \<Rightarrow> listing \<Rightarrow> string \<Rightarrow> string \<Rightarrow> string \<Rightarrow> string \<Rightarrow> nat \<Rightarrow>
     (exn + string) option" where
  "dedup_loop pf links p es target_folder original_name extension target_name counter =
     (case target_exists pf links p es target_folder target_name of
        Inl e \<Rightarrow> Some (Inl e)
      | Inr found \<Rightarrow>
          if found
          then dedup_loop pf links p es target_folder original_name extension
                 (original_name @ ''_'' @ str_nat counter @ extension) (counter + 1)
          else Some (Inr target_name))"

declare dedup_loop.simps [code]

text \<open>
  One iteration of the main loop, for the file \<open>name\<close>, in a source directory with the
  permissions \<open>p\<close>. An exception leaves the iteration with the listing as it is at that
  moment.
\<close>

definition process_file ::
  "platform \<Rightarrow> string list \<Rightarrow> perms \<Rightarrow> state \<Rightarrow> string \<Rightarrow> ((exn \<times> listing) + state) option" where
  "process_file pf links p st name =
     (let target_folder = target_folder_of pf name;
          es = entries st
      in case dir_exists pf links p es target_folder of
           Inl e \<Rightarrow> Some (Inl (e, es))
         | Inr found \<Rightarrow>
             (case (if \<not> found then mkdir pf links p es target_folder else Inr es) of
                Inl e \<Rightarrow> Some (Inl (e, es))
              | Inr es1 \<Rightarrow>
                  (case dedup_loop pf links p es1 target_folder (stem name) (suffix name) name 1 of
                     None \<Rightarrow> None
                   | Some (Inl e) \<Rightarrow> Some (Inl (e, es1))
                   | Some (Inr new_name) \<Rightarrow>
                       (case shutil_move links p es1 name target_folder new_name of
                          (Some e, es2) \<Rightarrow> Some (Inl (e, es2))
                        | (None, es2) \<Rightarrow>
                            Some (Inr \<lparr>entries = es2,
                                       organized_count = organized_count st + 1,
                                       created_folders =
                                         (if \<not> found
                                          then insert target_folder (created_folders st)
                                          else created_folders st),
                                       file_moves = file_moves st @
                                         [\<lparr>move_file = name, move_from = ''Root Directory'',
                                           move_to = target_folder,
                                           move_new_name = new_name\<rparr>]\<rparr>)))))"

text \<open>\<open>for file_path in files\<close>: the first exception ends the loop.\<close>

fun organize_loop ::
  "platform \<Rightarrow> string list \<Rightarrow> perms \<Rightarrow> string list \<Rightarrow> state \<Rightarrow> ((exn \<times> listing) + state) option" where
  "organize_loop pf links p [] st = Some (Inr st)"
| "organize_loop pf links p (name # files) st =
     (case process_file pf links p st name of
        None \<Rightarrow> None
      | Some (Inl err) \<Rightarrow> Some (Inl err)
      | Some (Inr st') \<Rightarrow> organize_loop pf links p files st')"

subsection \<open>The summary\<close>

text \<open>The non-ASCII marks of the messages, as the bytes of the source file.\<close>

definition nl :: string where
  "nl = [CHR 0x0A]"

definition mark_complete :: string where
  "mark_complete = [CHR 0xC3, CHR 0xA2, CHR 0xC5, CHR 0x93, CHR 0xE2, CHR 0x80, CHR 0xA6]"

definition mark_before :: string where
  "mark_before =
     [CHR 0xC4, CHR 0x9F, CHR 0xC5, CHR 0xB8, CHR 0xE2, CHR 0x80, CHR 0x9C, CHR 0xE2, CHR 0x80, CHR 0xB9]"

definition mark_changes :: string where
  "mark_changes =
     [CHR 0xC4, CHR 0x9F, CHR 0xC5, CHR 0xB8, CHR 0xE2, CHR 0x80, CHR 0x9D, CHR 0xE2, CHR 0x80, CHR 0x9E]"

definition mark_bullet :: string where
  "mark_bullet = [CHR 0xC3, CHR 0xA2, CHR 0xE2, CHR 0x82, CHR 0xAC, CHR 0xC2, CHR 0xA2]"

definition mark_arrow :: string where
  "mark_arrow = [CHR 0xC3, CHR 0xA2, CHR 0xE2, CHR 0x80, CHR 0xA0, CHR 0xE2, CHR 0x80, CHR 0x99]"

definition mark_after :: string where
  "mark_after =
     [CHR 0xC4, CHR 0x9F, CHR 0xC5, CHR 0xB8, CHR 0xE2, CHR 0x80, CHR 0x9C, CHR 0xE2, CHR 0x80, CHR 0x9A]"

definition mark_location :: string where
  "mark_location = [CHR 0xC4, CHR 0x9F, CHR 0xC5, CHR 0xB8, CHR 0xE2, CHR 0x80, CHR 0x9C]"

definition mark_error :: string where
  "mark_error = [CHR 0xC3, CHR 0xA2, CHR 0xC5, CHR 0x92]"

text \<open>The two lines of the before state.\<close>

definition before_text :: "string list \<Rightarrow> string" where
  "before_text before_state =
     mark_before @ '' BEFORE: '' @ str_nat (length before_state) @ '' files in root directory'' @ nl
     @ ''Files: '' @ join '', '' (take 5 before_state)
     @ (if length before_state > 5 then ''...'' else []) @ nl @ nl"

text \<open>The line of one move.\<close>

definition change_line :: "move \<Rightarrow> string" where
  "change_line m =
     (if move_file m \<noteq> move_new_name m
      then mark_bullet @ '' '' @ move_file m @ '' '' @ mark_arrow @ '' '' @ move_to m @ ''/''
           @ move_new_name m @ '' (renamed)'' @ nl
      else mark_bullet @ '' '' @ move_file m @ '' '' @ mark_arrow @ '' '' @ move_to m @ ''/'' @ nl)"

text \<open>The line of one created folder.\<close>

definition folder_line :: "move list \<Rightarrow> string \<Rightarrow> string" where
  "folder_line moves folder =
     (let folder_files = map move_new_name (filter (\<lambda>m. move_to m = folder) moves)
      in mark_bullet @ '' '' @ folder @ '': '' @ str_nat (length folder_files) @ '' files'' @ nl)"

definition summary_text :: "string \<Rightarrow> string list \<Rightarrow> string set \<Rightarrow> move list \<Rightarrow> string" where
  "summary_text source_directory before_state created moves =
     mark_complete @ '' File organization complete!'' @ nl @ nl
     @ before_text before_state
     @ mark_changes @ '' CHANGES MADE:'' @ nl
     @ concat (map change_line moves)
     @ nl @ mark_after @ '' AFTER: Created '' @ str_nat (card created) @ '' folders'' @ nl
     @ concat (map (folder_line moves) (sorted_list_of_set created))
     @ nl @ mark_location @ '' Location: '' @ source_directory"

subsection \<open>The function\<close>

text \<open>
  The body of the \<open>try\<close> block: what it returns or raises, and what it leaves at the
  path. \<open>None\<close> stands for a call that never returns.
\<close>

definition file_organizer_try ::
  "platform \<Rightarrow> string list \<Rightarrow> string \<Rightarrow> bool \<Rightarrow> path_stat \<Rightarrow>
     ((exn + string) \<times> path_stat) option" where
  "file_organizer_try pf links source_directory organize_by_type fs =
     (case fs of
        Raises e \<Rightarrow> Some (Inl e, fs)
      | Missing \<Rightarrow>
          Some (Inr (''Error: Directory '' @ [CHR 0x27] @ source_directory @ [CHR 0x27]
                     @ '' does not exist''), fs)
      | Found (File readable content) \<Rightarrow>
          Some (Inr (''Error: '' @ [CHR 0x27] @ source_directory @ [CHR 0x27]
                     @ '' is not a directory''), fs)
      | Found (Dir p es) \<Rightarrow>
          (case scan pf links p es of
             Inl e \<Rightarrow> Some (Inl e, fs)
           | Inr files \<Rightarrow>
               if files = [] then
                 Some (Inr (''No files found in '' @ [CHR 0x27] @ source_directory @ [CHR 0x27]),
                       fs)
               else
                 (let before_state = files in
                  case organize_loop pf links p files
                         \<lparr>entries = es, organized_count = 0, created_folders = {},
                          file_moves = []\<rparr> of
                    None \<Rightarrow> None
                  | Some (Inl (e, es')) \<Rightarrow> Some (Inl e, Found (Dir p es'))
                  | Some (Inr st) \<Rightarrow>
                      Some (Inr (summary_text source_directory before_state
                                   (created_folders st) (file_moves st)),
                            Found (Dir p (entries st))))))"

text \<open>
  The function with its two handlers: the result is the returned string and what the
  call leaves at the path.
\<close>

definition file_organizer ::
  "platform \<Rightarrow> string list \<Rightarrow> string \<Rightarrow> bool \<Rightarrow> path_stat \<Rightarrow> (string \<times> path_stat) option" where
  "file_organizer pf links source_directory organize_by_type fs =
     (case file_organizer_try pf links source_directory organize_by_type fs of
        None \<Rightarrow> None
      | Some (Inr result, fs') \<Rightarrow> Some (result, fs')
      | Some (Inl PermissionError, fs') \<Rightarrow>
          Some (mark_error
                @ '' Error: Permission denied. Run as administrator or check file permissions.'',
                fs')
      | Some (Inl e, fs') \<Rightarrow> Some (mark_error @ '' Error organizing files: '' @ str_e pf e, fs'))"

section \<open>Notions of the specification\<close>

text \<open>The Category Table as the specification prints it, row by row.\<close>

definition spec_category_table :: "(string \<times> string list) list" where
  "spec_category_table =
    [(''Word Documents'', [''.doc'', ''.docx'', ''.rtf'', ''.odt'']),
     (''Excel Documents'', [''.xls'', ''.xlsx'', ''.csv'', ''.ods'']),
     (''PowerPoint Documents'', [''.ppt'', ''.pptx'', ''.odp'']),
     (''PDF Documents'', [''.pdf'']),
     (''Images'', [''.jpg'', ''.jpeg'', ''.png'', ''.gif'', ''.bmp'', ''.tiff'', ''.svg'', ''.webp'']),
     (''Videos'', [''.mp4'', ''.avi'', ''.mkv'', ''.mov'', ''.wmv'', ''.flv'', ''.webm'']),
     (''Audio'', [''.mp3'', ''.wav'', ''.flac'', ''.aac'', ''.ogg'', ''.wma'']),
     (''Archives'', [''.zip'', ''.rar'', ''.7z'', ''.tar'', ''.gz'']),
     (''Text Files'', [''.txt'', ''.md'', ''.log'']),
     (''Code Files'', [''.py'', ''.js'', ''.html'', ''.css'', ''.java'', ''.cpp'', ''.c'', ''.php'']),
     (''Executables'', [''.exe'', ''.msi'', ''.bat'', ''.cmd'', ''.sh'', ''.run'', ''.deb'', ''.rpm'',
        ''.appimage''])]"

text \<open>
  The lookup in the specification's words: the first category, in the order of the
  table, whose extension set contains the extension; the fallback when there is none.
\<close>

definition spec_category :: "(string \<times> string list) list \<Rightarrow> string \<Rightarrow> string" where
  "spec_category table ext =
     (case List.find (\<lambda>(category, extensions). ext \<in> set extensions) table of
        Some (category, extensions) \<Rightarrow> category
      | None \<Rightarrow> ''Other Files'')"

text \<open>The \<open>n\<close>-th name the collision loop builds from a stem and an extension.\<close>

definition numbered :: "string \<Rightarrow> string \<Rightarrow> nat \<Rightarrow> string" where
  "numbered original_name extension n = original_name @ ''_'' @ str_nat n @ extension"

text \<open>
  The candidate names of a file, in the order in which they are tried: the original
  name, then the stem with \<open>_1\<close>, \<open>_2\<close>, ... before the extension.
\<close>

definition candidate :: "string \<Rightarrow> nat \<Rightarrow> string" where
  "candidate name n = (if n = 0 then name else numbered (stem name) (suffix name) n)"

text \<open>
  What leaving the collision loop at the name \<open>target\<close> gives: the exception that
  \<open>exists()\<close> raises there, or the name.
\<close>

definition loop_exit ::
  "platform \<Rightarrow> string list \<Rightarrow> perms \<Rightarrow> listing \<Rightarrow> string \<Rightarrow> string \<Rightarrow> exn + string" where
  "loop_exit pf links p es folder target =
     (case target_exists pf links p es folder target of
        Inl e \<Rightarrow> Inl e
      | Inr found \<Rightarrow> Inr target)"

text \<open>
  The listing of the subdirectory \<open>source_path / folder\<close>; empty when there is none.
\<close>

definition folder_listing :: "listing \<Rightarrow> string \<Rightarrow> listing" where
  "folder_listing es folder =
     (case map_of es folder of
        Some (Dir q sub) \<Rightarrow> sub
      | Some (File readable content) \<Rightarrow> []
      | None \<Rightarrow> [])"

text \<open>What lies at \<open>source_path / folder / name\<close>.\<close>

definition node_at :: "listing \<Rightarrow> string \<Rightarrow> string \<Rightarrow> node option" where
  "node_at es folder name = map_of (folder_listing es folder) name"


text \<open>The variables of the main loop as the function initialises them.\<close>

abbreviation initial_state :: "listing \<Rightarrow> state" where
  "initial_state es \<equiv>
     \<lparr>entries = es, organized_count = 0, created_folders = {}, file_moves = []\<rparr>"


text \<open>The string with which the handlers answer the exception \<open>e\<close>.\<close>

definition handled :: "platform \<Rightarrow> exn \<Rightarrow> string" where
  "handled pf e =
     (if e = PermissionError
      then mark_error
        @ '' Error: Permission denied. Run as administrator or check file permissions.''
      else mark_error @ '' Error organizing files: '' @ str_e pf e)"

section \<open>A platform for the examples\<close>

text \<open>
  The descriptions of the exceptions as CPython gives them on Linux, without the path
  they end with.
\<close>

fun errno_text :: "exn \<Rightarrow> string" where
  "errno_text PermissionError = ''[Errno 13] Permission denied''"
| "errno_text (FileExistsError path) = ''[Errno 17] File exists''"
| "errno_text (FileNotFoundError path) = ''[Errno 2] No such file or directory''"
| "errno_text (NotADirectoryError folder name) = ''[Errno 20] Not a directory''"
| "errno_text (NameTooLongError path) = ''[Errno 36] File name too long''"

text \<open>
  A lowering that knows one character beyond ASCII: the Kelvin sign \<open>U+212A\<close>, in UTF-8
  the bytes \<open>E2 84 AA\<close>, which \<open>str.lower()\<close> turns into \<open>k\<close>.
\<close>

fun lower_kelvin :: "string \<Rightarrow> string" where
  "lower_kelvin (a # b # c # rest) =
     (if a = CHR 0xE2 \<and> b = CHR 0x84 \<and> c = CHR 0xAA then CHR ''k'' # lower_kelvin rest
      else lower_char a # lower_kelvin (b # c # rest))"
| "lower_kelvin s = map lower_char s"

text \<open>A platform on which no component of a path may be longer than 255 bytes.\<close>

definition example_platform :: platform where
  "example_platform =
     \<lparr>str_e = errno_text, lower_other = lower_kelvin,
      too_long = list_ex (\<lambda>component. 255 < length component)\<rparr>"

section \<open>Decimal numerals and the numbered names\<close>

lemma digit_inj: "a < 10 \<Longrightarrow> b < 10 \<Longrightarrow> digit a = digit b \<Longrightarrow> a = b"
proof -
  assume a: "a < 10" and b: "b < 10" and e: "digit a = digit b"
  have d: "distinct ''0123456789''" by simp
  have "length ''0123456789'' = 10" by simp
  with a b e d show "a = b"
    unfolding digit_def by (metis nth_eq_iff_index_eq)
qed

lemma str_nat_nonempty: "str_nat n \<noteq> []"
  by (subst str_nat.simps) simp

lemma str_nat_inj: "str_nat n = str_nat m \<Longrightarrow> n = m"
proof (induction n arbitrary: m rule: str_nat.induct)
  case (1 n)
  show ?case
  proof (cases "n < 10")
    case True
    then have n: "str_nat n = [digit n]" by (subst str_nat.simps) simp
    show ?thesis
    proof (cases "m < 10")
      case True
      then have "str_nat m = [digit m]" by (subst str_nat.simps) simp
      with n "1.prems" have "digit n = digit m" by simp
      with \<open>n < 10\<close> True show ?thesis by (rule digit_inj)
    next
      case False
      then have "str_nat m = str_nat (m div 10) @ [digit (m mod 10)]"
        by (subst str_nat.simps) simp
      with n "1.prems" have "str_nat (m div 10) = []" by simp
      then show ?thesis by (simp add: str_nat_nonempty)
    qed
  next
    case False
    then have n: "str_nat n = str_nat (n div 10) @ [digit (n mod 10)]"
      by (subst str_nat.simps) simp
    show ?thesis
    proof (cases "m < 10")
      case True
      then have "str_nat m = [digit m]" by (subst str_nat.simps) simp
      with n "1.prems" have "str_nat (n div 10) = []" by simp
      then show ?thesis by (simp add: str_nat_nonempty)
    next
      case m: False
      then have "str_nat m = str_nat (m div 10) @ [digit (m mod 10)]"
        by (subst str_nat.simps) simp
      with n "1.prems" have q: "str_nat (n div 10) = str_nat (m div 10)"
        and r: "digit (n mod 10) = digit (m mod 10)" by simp_all
      from "1.IH" [OF False q] have "n div 10 = m div 10" .
      moreover from r have "n mod 10 = m mod 10" by (intro digit_inj) simp_all
      ultimately show ?thesis by (metis div_mult_mod_eq)
    qed
  qed
qed

lemma numbered_inj: "numbered orig ext i = numbered orig ext j \<Longrightarrow> i = j"
  by (simp add: numbered_def str_nat_inj)

text \<open>Only finitely many names are occupied under a folder.\<close>

lemma target_exists_occupied:
  assumes "target_exists pf links p es folder nm = Inr True"
  shows "nm \<in> set links \<union> dom (map_of es) \<union> dom (map_of (folder_listing es folder))"
  using assms
  by (auto simp: target_exists_def folder_listing_def
      split: option.splits node.splits if_splits)

lemma target_exists_finite: "finite {nm. target_exists pf links p es folder nm = Inr True}"
proof (rule finite_subset)
  show "{nm. target_exists pf links p es folder nm = Inr True}
        \<subseteq> set links \<union> dom (map_of es) \<union> dom (map_of (folder_listing es folder))"
    using target_exists_occupied by blast
  show "finite (set links \<union> dom (map_of es) \<union> dom (map_of (folder_listing es folder)))"
    by (simp add: finite_dom_map_of)
qed

lemma numbered_free:
  "\<exists>k\<ge>c. target_exists pf links p es folder (numbered orig ext k) \<noteq> Inr True"
proof (rule ccontr)
  assume "\<not> ?thesis"
  then have "\<forall>k\<ge>c. target_exists pf links p es folder (numbered orig ext k) = Inr True"
    by blast
  then have "numbered orig ext ` {c..} \<subseteq> {nm. target_exists pf links p es folder nm = Inr True}"
    by (intro image_subsetI) simp
  then have "finite (numbered orig ext ` {c..})"
    by (rule finite_subset) (rule target_exists_finite)
  moreover have "inj_on (numbered orig ext) {c..}"
    by (rule inj_onI) (rule numbered_inj)
  ultimately have "finite {c..}"
    by (rule finite_imageD)
  then show False by (simp add: infinite_Ici)
qed

lemma dedup_loop_unfold:
  "dedup_loop pf links p es folder orig ext target c =
     (if target_exists pf links p es folder target = Inr True
      then dedup_loop pf links p es folder orig ext (numbered orig ext c) (c + 1)
      else Some (loop_exit pf links p es folder target))"
  by (subst dedup_loop.simps) (simp add: numbered_def loop_exit_def split: sum.splits)

lemma dedup_loop_from:
  assumes "target_exists pf links p es folder (numbered orig ext k) \<noteq> Inr True"
    and "\<forall>j. c \<le> j \<and> j < k \<longrightarrow> target_exists pf links p es folder (numbered orig ext j) = Inr True"
    and "c \<le> k"
    and "target_exists pf links p es folder target = Inr True"
  shows "dedup_loop pf links p es folder orig ext target c =
           Some (loop_exit pf links p es folder (numbered orig ext k))"
  using assms
proof (induction "k - c" arbitrary: c target)
  case 0
  then have "c = k" by simp
  with 0 show ?case
    by (simp add: dedup_loop_unfold [of pf links p es folder orig ext target]
        dedup_loop_unfold [of pf links p es folder orig ext "numbered orig ext k"])
next
  case (Suc d)
  then have lt: "c < k" by simp
  with Suc.prems have ex: "target_exists pf links p es folder (numbered orig ext c) = Inr True"
    by simp
  have "dedup_loop pf links p es folder orig ext (numbered orig ext c) (c + 1) =
          Some (loop_exit pf links p es folder (numbered orig ext k))"
  proof (rule Suc.hyps(1))
    show "d = k - (c + 1)" using Suc.hyps(2) by simp
    show "target_exists pf links p es folder (numbered orig ext k) \<noteq> Inr True"
      by (rule Suc.prems(1))
    show "\<forall>j. c + 1 \<le> j \<and> j < k \<longrightarrow>
            target_exists pf links p es folder (numbered orig ext j) = Inr True"
      using Suc.prems(2) by simp
    show "c + 1 \<le> k" using lt by simp
    show "target_exists pf links p es folder (numbered orig ext c) = Inr True" by (rule ex)
  qed
  with Suc.prems(4) show ?case
    by (simp add: dedup_loop_unfold [of pf links p es folder orig ext target])
qed

lemma dedup_loop_result:
  "\<exists>k. dedup_loop pf links p es folder orig ext target c =
         Some (loop_exit pf links p es folder
                 (if target_exists pf links p es folder target = Inr True
                  then numbered orig ext k else target))
     \<and> (target_exists pf links p es folder target = Inr True \<longrightarrow>
          c \<le> k \<and> target_exists pf links p es folder (numbered orig ext k) \<noteq> Inr True
        \<and> (\<forall>j. c \<le> j \<and> j < k \<longrightarrow>
              target_exists pf links p es folder (numbered orig ext j) = Inr True))"
proof (cases "target_exists pf links p es folder target = Inr True")
  case False
  then show ?thesis by (simp add: dedup_loop_unfold [of pf links p es folder orig ext target])
next
  case True
  define k where
    "k = (LEAST k. c \<le> k \<and> target_exists pf links p es folder (numbered orig ext k) \<noteq> Inr True)"
  from numbered_free [of c pf links p es folder orig ext]
  have ex: "\<exists>k. c \<le> k \<and> target_exists pf links p es folder (numbered orig ext k) \<noteq> Inr True"
    by blast
  from LeastI_ex [OF ex]
  have k: "c \<le> k" "target_exists pf links p es folder (numbered orig ext k) \<noteq> Inr True"
    unfolding k_def by simp_all
  have least: "\<forall>j. c \<le> j \<and> j < k \<longrightarrow>
      target_exists pf links p es folder (numbered orig ext j) = Inr True"
    unfolding k_def using not_less_Least by blast
  from dedup_loop_from [OF k(2) least k(1) True] True k least show ?thesis
    by auto
qed

lemma dedup_loop_total:
  "\<exists>r. dedup_loop pf links p es folder orig ext target c = Some r"
  using dedup_loop_result [of pf links p es folder orig ext target c] by blast

lemma loop_exit_Inr:
  "loop_exit pf links p es folder target = Inr r \<Longrightarrow>
   r = target \<and> (\<exists>found. target_exists pf links p es folder target = Inr found)"
  by (auto simp: loop_exit_def split: sum.splits)


lemma dedup_loop_free:
  assumes "dedup_loop pf links p es folder orig ext target c = Some (Inr r)"
  shows "target_exists pf links p es folder r = Inr False"
proof -
  from dedup_loop_result [of pf links p es folder orig ext target c] assms obtain k where
    ex: "loop_exit pf links p es folder
           (if target_exists pf links p es folder target = Inr True
            then numbered orig ext k else target) = Inr r" and
    k: "target_exists pf links p es folder target = Inr True \<longrightarrow>
          target_exists pf links p es folder (numbered orig ext k) \<noteq> Inr True"
    by auto
  let ?t = "if target_exists pf links p es folder target = Inr True
            then numbered orig ext k else target"
  from loop_exit_Inr [OF ex] obtain found where
    r: "r = ?t" and f: "target_exists pf links p es folder ?t = Inr found" by blast
  from k f have "target_exists pf links p es folder ?t \<noteq> Inr True"
    by (simp split: if_splits)
  with f r show ?thesis by (cases found) simp_all
qed


lemma dedup_loop_candidate:
  assumes "dedup_loop pf links p es folder (stem name) (suffix name) name 1 = Some (Inr r)"
  shows "\<exists>k. r = candidate name k \<and>
             target_exists pf links p es folder (candidate name k) = Inr False \<and>
             (\<forall>j<k. target_exists pf links p es folder (candidate name j) = Inr True)"
proof (cases "target_exists pf links p es folder name = Inr True")
  case False
  with assms have "loop_exit pf links p es folder name = Inr r"
    by (simp add: dedup_loop_unfold [of pf links p es folder "stem name" "suffix name" name])
  from loop_exit_Inr [OF this] have "r = name" by simp
  with dedup_loop_free [OF assms]
  have "r = candidate name 0 \<and> target_exists pf links p es folder (candidate name 0) = Inr False \<and>
      (\<forall>j<0. target_exists pf links p es folder (candidate name j) = Inr True)"
    by (simp add: candidate_def)
  then show ?thesis by blast
next
  case True
  from dedup_loop_result [of pf links p es folder "stem name" "suffix name" name 1] True assms
  obtain k where
      ex: "loop_exit pf links p es folder (numbered (stem name) (suffix name) k) = Inr r" and
      k: "1 \<le> k"
      "\<forall>j. 1 \<le> j \<and> j < k \<longrightarrow>
         target_exists pf links p es folder (numbered (stem name) (suffix name) j) = Inr True"
    by auto
  from loop_exit_Inr [OF ex] have r: "r = numbered (stem name) (suffix name) k" by simp
  have "\<forall>j<k. target_exists pf links p es folder (candidate name j) = Inr True"
  proof (intro allI impI)
    fix j assume "j < k"
    show "target_exists pf links p es folder (candidate name j) = Inr True"
    proof (cases "j = 0")
      case True
      with \<open>target_exists pf links p es folder name = Inr True\<close> show ?thesis
        by (simp add: candidate_def)
    next
      case False
      with k(2) \<open>j < k\<close> show ?thesis by (simp add: candidate_def)
    qed
  qed
  moreover from r k(1) have "r = candidate name k" by (simp add: candidate_def)
  moreover from dedup_loop_free [OF assms] \<open>r = candidate name k\<close>
  have "target_exists pf links p es folder (candidate name k) = Inr False" by simp
  ultimately show ?thesis by blast
qed

section \<open>The category of a file\<close>

lemma find_category_find:
  "find_category ext cats =
     map_option fst (List.find (\<lambda>(category, extensions). ext \<in> set extensions) cats)"
  by (induction cats) auto

lemma find_category_in: "find_category ext cats = Some c \<Longrightarrow> c \<in> fst ` set cats"
  by (induction cats) (auto split: if_splits)

lemma file_categories_nonempty: "c \<in> fst ` set file_categories \<Longrightarrow> c \<noteq> []"
  by (auto simp: file_categories_def)

lemma target_folder_of_spec:
  "target_folder_of pf name = spec_category file_categories (lower pf (suffix name))"
proof (cases "find_category (lower pf (suffix name)) file_categories")
  case None
  then show ?thesis
    by (simp add: target_folder_of_def spec_category_def find_category_find)
next
  case (Some c)
  then have "c \<noteq> []"
    using find_category_in file_categories_nonempty by blast
  with Some show ?thesis
    by (auto simp add: target_folder_of_def spec_category_def find_category_find)
qed

section \<open>One iteration of the main loop\<close>

lemma process_file_unfold:
  "process_file pf links p st name =
     (case dir_exists pf links p (entries st) (target_folder_of pf name) of
        Inl e \<Rightarrow> Some (Inl (e, entries st))
      | Inr found \<Rightarrow>
          (case (if \<not> found then mkdir pf links p (entries st) (target_folder_of pf name)
                 else Inr (entries st)) of
             Inl e \<Rightarrow> Some (Inl (e, entries st))
           | Inr es1 \<Rightarrow>
               (case dedup_loop pf links p es1 (target_folder_of pf name) (stem name) (suffix name)
                       name 1 of
                  None \<Rightarrow> None
                | Some (Inl e) \<Rightarrow> Some (Inl (e, es1))
                | Some (Inr new_name) \<Rightarrow>
                    (case shutil_move links p es1 name (target_folder_of pf name) new_name of
                       (Some e, es2) \<Rightarrow> Some (Inl (e, es2))
                     | (None, es2) \<Rightarrow>
                         Some (Inr \<lparr>entries = es2,
                                    organized_count = organized_count st + 1,
                                    created_folders =
                                      (if \<not> found
                                       then insert (target_folder_of pf name) (created_folders st)
                                       else created_folders st),
                                    file_moves = file_moves st @
                                      [\<lparr>move_file = name, move_from = ''Root Directory'',
                                        move_to = target_folder_of pf name,
                                        move_new_name = new_name\<rparr>]\<rparr>)))))"
  by (simp add: process_file_def Let_def)

lemma process_file_Inr:
  assumes "process_file pf links p st name = Some (Inr st')"
  shows "\<exists>found es1 new_name.
           dir_exists pf links p (entries st) (target_folder_of pf name) = Inr found \<and>
           (if \<not> found then mkdir pf links p (entries st) (target_folder_of pf name)
            else Inr (entries st)) = Inr es1 \<and>
           dedup_loop pf links p es1 (target_folder_of pf name) (stem name) (suffix name) name 1
             = Some (Inr new_name) \<and>
           shutil_move links p es1 name (target_folder_of pf name) new_name = (None, entries st') \<and>
           organized_count st' = organized_count st + 1 \<and>
           created_folders st' =
             (if found then created_folders st
              else insert (target_folder_of pf name) (created_folders st)) \<and>
           file_moves st' = file_moves st @
             [\<lparr>move_file = name, move_from = ''Root Directory'',
               move_to = target_folder_of pf name, move_new_name = new_name\<rparr>]"
proof -
  let ?folder = "target_folder_of pf name"
  from assms obtain found where
    f: "dir_exists pf links p (entries st) ?folder = Inr found"
    unfolding process_file_unfold by (cases "dir_exists pf links p (entries st) ?folder") auto
  let ?made = "if \<not> found then mkdir pf links p (entries st) ?folder else Inr (entries st)"
  from assms f obtain es1 where m: "?made = Inr es1"
    unfolding process_file_unfold by (cases ?made) auto
  let ?loop = "dedup_loop pf links p es1 ?folder (stem name) (suffix name) name 1"
  from assms f m obtain new_name where l: "?loop = Some (Inr new_name)"
    unfolding process_file_unfold
    by (cases ?loop) (auto split: sum.splits)
  obtain e_opt es2 where mv: "shutil_move links p es1 name ?folder new_name = (e_opt, es2)"
    by (cases "shutil_move links p es1 name ?folder new_name")
  from assms f m l mv have "e_opt = None \<and>
      st' = \<lparr>entries = es2, organized_count = organized_count st + 1,
             created_folders =
               (if \<not> found then insert ?folder (created_folders st) else created_folders st),
             file_moves = file_moves st @
               [\<lparr>move_file = name, move_from = ''Root Directory'',
                 move_to = ?folder, move_new_name = new_name\<rparr>]\<rparr>"
    unfolding process_file_unfold by (cases e_opt) auto
  with f m l mv show ?thesis
    by (intro exI [of _ found] exI [of _ es1] exI [of _ new_name]) auto
qed

lemma process_file_Inl:
  assumes "process_file pf links p st name = Some (Inl (e, es'))"
  shows "(dir_exists pf links p (entries st) (target_folder_of pf name) = Inl e \<and>
          es' = entries st) \<or>
         (dir_exists pf links p (entries st) (target_folder_of pf name) = Inr False \<and>
          mkdir pf links p (entries st) (target_folder_of pf name) = Inl e \<and>
          es' = entries st) \<or>
         (\<exists>found es1.
           dir_exists pf links p (entries st) (target_folder_of pf name) = Inr found \<and>
           (if \<not> found then mkdir pf links p (entries st) (target_folder_of pf name)
            else Inr (entries st)) = Inr es1 \<and>
           (dedup_loop pf links p es1 (target_folder_of pf name) (stem name) (suffix name) name 1
              = Some (Inl e) \<and> es' = es1 \<or>
            (\<exists>new_name.
              dedup_loop pf links p es1 (target_folder_of pf name) (stem name) (suffix name) name 1
                = Some (Inr new_name) \<and>
              shutil_move links p es1 name (target_folder_of pf name) new_name = (Some e, es'))))"
proof -
  let ?folder = "target_folder_of pf name"
  show ?thesis
  proof (cases "dir_exists pf links p (entries st) ?folder")
    case (Inl e0)
    with assms show ?thesis unfolding process_file_unfold by simp
  next
    case (Inr found)
    let ?made = "if \<not> found then mkdir pf links p (entries st) ?folder else Inr (entries st)"
    show ?thesis
    proof (cases ?made)
      case (Inl e0)
      with assms Inr have "e0 = e" "es' = entries st"
        unfolding process_file_unfold by simp_all
      with Inl Inr show ?thesis by (cases found) simp_all
    next
      case m: (Inr es1)
      let ?loop = "dedup_loop pf links p es1 ?folder (stem name) (suffix name) name 1"
      from assms Inr m obtain r where l: "?loop = Some r"
        unfolding process_file_unfold by (cases ?loop) auto
      show ?thesis
      proof (cases r)
        case (Inl e0)
        with assms Inr m l have "e0 = e" "es' = es1"
          unfolding process_file_unfold by simp_all
        with Inl Inr m l show ?thesis by blast
      next
        case new: (Inr new_name)
        obtain e_opt es2 where
          mv: "shutil_move links p es1 name ?folder new_name = (e_opt, es2)"
          by (cases "shutil_move links p es1 name ?folder new_name")
        from assms Inr m l new mv have "e_opt = Some e \<and> es2 = es'"
          unfolding process_file_unfold by (cases e_opt) auto
        with Inr m l new mv show ?thesis by blast
      qed
    qed
  qed
qed

lemma process_file_moves:
  "process_file pf links p st name = Some (Inr st') \<Longrightarrow>
   \<exists>new_name. file_moves st' = file_moves st @
      [\<lparr>move_file = name, move_from = ''Root Directory'',
        move_to = target_folder_of pf name, move_new_name = new_name\<rparr>]"
  using process_file_Inr by blast

lemma organize_loop_moves:
  "organize_loop pf links p files st = Some (Inr st') \<Longrightarrow>
   map (\<lambda>m. (move_file m, move_from m, move_to m)) (file_moves st') =
   map (\<lambda>m. (move_file m, move_from m, move_to m)) (file_moves st) @
   map (\<lambda>name. (name, ''Root Directory'', target_folder_of pf name)) files"
proof (induction files arbitrary: st)
  case Nil
  then show ?case by simp
next
  case (Cons name files)
  from Cons.prems obtain st1 where
    step: "process_file pf links p st name = Some (Inr st1)" and
    rest: "organize_loop pf links p files st1 = Some (Inr st')"
    by (auto split: option.splits sum.splits)
  from process_file_moves [OF step] Cons.IH [OF rest] show ?case
    by auto
qed

section \<open>Every iteration ends\<close>

lemma process_file_total: "\<exists>r. process_file pf links p st name = Some r"
proof -
  let ?folder = "target_folder_of pf name"
  show ?thesis
  proof (cases "dir_exists pf links p (entries st) ?folder")
    case (Inl e)
    then show ?thesis unfolding process_file_unfold by simp
  next
    case (Inr found)
    let ?made = "if \<not> found then mkdir pf links p (entries st) ?folder else Inr (entries st)"
    show ?thesis
    proof (cases ?made)
      case (Inl e)
      with Inr show ?thesis unfolding process_file_unfold by simp
    next
      case m: (Inr es1)
      from dedup_loop_total obtain r where
        l: "dedup_loop pf links p es1 ?folder (stem name) (suffix name) name 1 = Some r"
        by blast
      show ?thesis
      proof (cases r)
        case (Inl e)
        with Inr m l show ?thesis unfolding process_file_unfold by simp
      next
        case new: (Inr new_name)
        obtain e_opt es2 where
          mv: "shutil_move links p es1 name ?folder new_name = (e_opt, es2)"
          by (cases "shutil_move links p es1 name ?folder new_name")
        with Inr m l new show ?thesis
          unfolding process_file_unfold by (cases e_opt) simp_all
      qed
    qed
  qed
qed

lemma organize_loop_total: "\<exists>r. organize_loop pf links p files st = Some r"
proof (induction files arbitrary: st)
  case Nil
  show ?case by simp
next
  case (Cons name files)
  from process_file_total obtain r where r: "process_file pf links p st name = Some r" by blast
  show ?case
  proof (cases r)
    case (Inl err)
    with r show ?thesis by simp
  next
    case (Inr st1)
    with r Cons.IH [of st1] show ?thesis by simp
  qed
qed

section \<open>A source directory without links to itself\<close>

lemma dir_exists_Inr:
  assumes "dir_exists pf [] p es folder = Inr found"
  shows "found \<longleftrightarrow> map_of es folder \<noteq> None"
    and "child_error pf p [folder] = None"
  using assms by (auto simp: dir_exists_def split: option.splits)

lemma target_exists_Inr:
  assumes "target_exists pf [] p es folder nm = Inr found"
  shows "found \<longleftrightarrow> node_at es folder nm \<noteq> None"
  using assms
  by (auto simp: target_exists_def node_at_def folder_listing_def
      split: option.splits node.splits)

text \<open>The listing after the test for the folder and the call of \<open>mkdir\<close>.\<close>

lemma made_Inr:
  assumes "dir_exists pf [] p es folder = Inr found"
    and "(if \<not> found then mkdir pf [] p es folder else Inr es) = Inr es1"
  shows "es1 = (if found then es else es @ [(folder, Dir rwx [])])"
    and "\<not> found \<Longrightarrow> can_write p"
  using assms
  by (auto simp: mkdir_def dir_exists_def split: if_splits option.splits node.splits)

lemma shutil_move_None:
  assumes "shutil_move [] p es name folder new_name = (None, es2)"
  shows "\<exists>readable content q sub.
           map_of es name = Some (File readable content) \<and>
           map_of es folder = Some (Dir q sub) \<and>
           can_search p \<and> can_write p \<and> can_search q \<and> can_write q \<and>
           es2 = AList.update folder (Dir q (AList.update new_name (File readable content) sub))
                   (AList.delete name es)"
  using assms
  by (auto simp: shutil_move_def split: option.splits node.splits if_splits)

lemma shutil_move_Some:
  assumes "shutil_move [] p es name folder new_name = (Some e, es2)"
  shows "es2 = es \<or>
         (\<exists>readable content q sub.
            map_of es name = Some (File readable content) \<and>
            map_of es folder = Some (Dir q sub) \<and>
            e = PermissionError \<and>
            es2 = AList.update folder (Dir q (AList.update new_name (File readable content) sub))
                    es)"
  using assms
  by (auto simp: shutil_move_def split: option.splits node.splits if_splits)

subsection \<open>The listing as a map\<close>

lemma map_of_snoc:
  "map_of es k = None \<Longrightarrow> map_of (es @ [(k, v)]) = (map_of es)(k \<mapsto> v)"
  by (auto simp: fun_eq_iff map_add_def split: option.splits)

lemma iterdir_files_snoc_Dir [simp]:
  "iterdir_files (es @ [(k, Dir q sub)]) = iterdir_files es"
  by (simp add: iterdir_files_def)

lemma iterdir_files_update_Dir:
  "map_of es k = Some (Dir q sub) \<Longrightarrow>
   iterdir_files (AList.update k (Dir q' sub') es) = iterdir_files es"
  by (induction es) (auto simp: iterdir_files_def)

lemma iterdir_files_delete:
  "iterdir_files (AList.delete k es) = removeAll k (iterdir_files es)"
  by (induction es) (auto simp: iterdir_files_def)

lemma iterdir_files_distinct:
  "distinct (map fst es) \<Longrightarrow> distinct (iterdir_files es)"
  by (simp add: iterdir_files_def distinct_map_filter)

lemma iterdir_files_is_file:
  assumes "distinct (map fst es)" and "n \<in> set (iterdir_files es)"
  shows "\<exists>readable content. map_of es n = Some (File readable content)"
proof -
  from assms(2) obtain nd where "(n, nd) \<in> set es" "is_file nd"
    by (auto simp: iterdir_files_def)
  with assms(1) show ?thesis
    by (cases nd) simp_all
qed

text \<open>The listing after the folder was made, if it was missing.\<close>

lemma made_map_of:
  assumes "dir_exists pf [] p es folder = Inr found"
    and "(if \<not> found then mkdir pf [] p es folder else Inr es) = Inr es1"
  shows "map_of es1 = (if found then map_of es else (map_of es)(folder \<mapsto> Dir rwx []))"
    and "iterdir_files es1 = iterdir_files es"
    and "node_at es1 g n = node_at es g n"
proof -
  note e = made_Inr(1) [OF assms]
  note f = dir_exists_Inr(1) [OF assms(1)]
  show m: "map_of es1 = (if found then map_of es else (map_of es)(folder \<mapsto> Dir rwx []))"
  proof (cases found)
    case True
    with e show ?thesis by simp
  next
    case False
    with f have "map_of es folder = None" by simp
    from map_of_snoc [OF this] e False show ?thesis by simp
  qed
  show "iterdir_files es1 = iterdir_files es"
    using e by simp
  show "node_at es1 g n = node_at es g n"
    using m f by (auto simp: node_at_def folder_listing_def)
qed

lemma process_file_success:
  assumes "process_file pf [] p st name = Some (Inr st')"
  defines "es \<equiv> entries st" and "folder \<equiv> target_folder_of pf name"
  shows "\<exists>readable content k q.
     map_of es name = Some (File readable content) \<and>
     (map_of es folder = None \<and> q = rwx \<or>
      map_of es folder = Some (Dir q (folder_listing es folder))) \<and>
     can_write p \<and> can_write q \<and> name \<noteq> folder \<and>
     (\<forall>j<k. map_of (folder_listing es folder) (candidate name j) \<noteq> None) \<and>
     map_of (folder_listing es folder) (candidate name k) = None \<and>
     map_of (entries st') =
       (map_of es)(name := None,
         folder \<mapsto> Dir q (AList.update (candidate name k) (File readable content)
                             (folder_listing es folder))) \<and>
     iterdir_files (entries st') = removeAll name (iterdir_files es) \<and>
     fst ` set (entries st') \<subseteq> insert folder (fst ` set es) \<and>
     child_error pf p [folder] = None \<and>
     file_moves st' = file_moves st @
       [\<lparr>move_file = name, move_from = ''Root Directory'', move_to = folder,
         move_new_name = candidate name k\<rparr>] \<and>
     created_folders st' =
       (if map_of es folder = None then insert folder (created_folders st) else created_folders st) \<and>
     organized_count st' = organized_count st + 1"
proof -
  from process_file_Inr [OF assms(1)] obtain found es1 new_name where
    ex: "dir_exists pf [] p es folder = Inr found" and
    made: "(if \<not> found then mkdir pf [] p es folder else Inr es) = Inr es1" and
    loop: "dedup_loop pf [] p es1 folder (stem name) (suffix name) name 1 = Some (Inr new_name)" and
    mv: "shutil_move [] p es1 name folder new_name = (None, entries st')" and
    cnt: "organized_count st' = organized_count st + 1" and
    cre: "created_folders st' =
             (if found then created_folders st else insert folder (created_folders st))" and
    rec: "file_moves st' = file_moves st @
             [\<lparr>move_file = name, move_from = ''Root Directory'',
               move_to = folder, move_new_name = new_name\<rparr>]"
    unfolding es_def folder_def by blast
  note found = dir_exists_Inr [OF ex]
  from shutil_move_None [OF mv] obtain readable content q sub where
    src: "map_of es1 name = Some (File readable content)" and
    dst: "map_of es1 folder = Some (Dir q sub)" and
    perm: "can_write p" "can_write q" and
    res: "entries st' =
            AList.update folder (Dir q (AList.update new_name (File readable content) sub))
              (AList.delete name es1)"
    by blast
  from src dst have neq: "name \<noteq> folder" by auto
  note m1 = made_map_of(1) [OF ex made]
  have sub: "sub = folder_listing es folder"
    using m1 dst found(1) by (auto simp: folder_listing_def split: if_splits)
  have dst0: "map_of es folder = None \<and> q = rwx \<or>
              map_of es folder = Some (Dir q (folder_listing es folder))"
    using m1 dst sub found(1) by (auto split: if_splits)
  have src0: "map_of es name = Some (File readable content)"
    using m1 src neq by (auto split: if_splits)
  have ex1: "target_exists pf [] p es1 folder x = Inr b \<Longrightarrow> b \<longleftrightarrow> map_of sub x \<noteq> None" for x b
    using dst by (auto simp: target_exists_def split: option.splits)
  from dedup_loop_candidate [OF loop] obtain k where
    k: "new_name = candidate name k"
       "target_exists pf [] p es1 folder (candidate name k) = Inr False"
       "\<forall>j<k. target_exists pf [] p es1 folder (candidate name j) = Inr True"
    by blast
  from ex1 [OF k(2)] have free: "map_of sub (candidate name k) = None" by simp
  have occ: "\<forall>j<k. map_of sub (candidate name j) \<noteq> None"
  proof (intro allI impI)
    fix j assume "j < k"
    with k(3) have "target_exists pf [] p es1 folder (candidate name j) = Inr True" by simp
    from ex1 [OF this] show "map_of sub (candidate name j) \<noteq> None" by simp
  qed
  have "map_of (entries st') =
      (map_of es1)(name := None,
        folder \<mapsto> Dir q (AList.update new_name (File readable content) sub))"
    unfolding res by (simp add: update_conv' delete_conv')
  also have "\<dots> = (map_of es)(name := None,
      folder \<mapsto> Dir q (AList.update new_name (File readable content) sub))"
    using m1 neq by (auto simp: fun_eq_iff)
  finally have m: "map_of (entries st') = (map_of es)(name := None,
      folder \<mapsto> Dir q (AList.update (candidate name k) (File readable content)
                          (folder_listing es folder)))"
    using k(1) sub by simp
  have "map_of (AList.delete name es1) folder = Some (Dir q sub)"
    using dst neq by (simp add: delete_conv')
  then have "iterdir_files (entries st') = iterdir_files (AList.delete name es1)"
    unfolding res by (rule iterdir_files_update_Dir)
  then have fl: "iterdir_files (entries st') = removeAll name (iterdir_files es)"
    by (simp add: iterdir_files_delete made_map_of(2) [OF ex made])
  have "dom (map_of (entries st')) \<subseteq> insert folder (dom (map_of es))"
    unfolding m by auto
  then have keys: "fst ` set (entries st') \<subseteq> insert folder (fst ` set es)"
    by (simp add: dom_map_of_conv_image_fst)
  have cre': "created_folders st' =
       (if map_of es folder = None then insert folder (created_folders st) else created_folders st)"
    using cre found(1) by auto
  from src0 dst0 perm neq occ free m fl keys found(2) rec cre' cnt show ?thesis
    unfolding sub k(1) by blast
qed

subsection \<open>What one iteration keeps\<close>

lemma process_file_success_keeps:
  assumes "process_file pf [] p st name = Some (Inr st')"
  shows "node_at (entries st) g n = Some x \<Longrightarrow> node_at (entries st') g n = Some x"
    and "n \<noteq> name \<Longrightarrow> map_of (entries st) n = Some (File r c) \<Longrightarrow>
         map_of (entries st') n = Some (File r c)"
    and "map_of (entries st') n = Some (File r c) \<Longrightarrow>
         n \<noteq> name \<and> map_of (entries st) n = Some (File r c)"
proof -
  from process_file_success [OF assms] obtain readable content k q where
    src: "map_of (entries st) name = Some (File readable content)" and
    dst: "map_of (entries st) (target_folder_of pf name) = None \<and> q = rwx \<or>
          map_of (entries st) (target_folder_of pf name) =
            Some (Dir q (folder_listing (entries st) (target_folder_of pf name)))" and
    free: "map_of (folder_listing (entries st) (target_folder_of pf name)) (candidate name k) = None" and
    m: "map_of (entries st') =
       (map_of (entries st))(name := None,
         target_folder_of pf name \<mapsto> Dir q (AList.update (candidate name k) (File readable content)
            (folder_listing (entries st) (target_folder_of pf name))))"
    by blast
  show "node_at (entries st) g n = Some x \<Longrightarrow> node_at (entries st') g n = Some x"
    using src free m
    by (cases "g = target_folder_of pf name"; cases "g = name")
       (auto simp: node_at_def folder_listing_def update_conv')
  show "n \<noteq> name \<Longrightarrow> map_of (entries st) n = Some (File r c) \<Longrightarrow>
         map_of (entries st') n = Some (File r c)"
    using dst m by auto
  show "map_of (entries st') n = Some (File r c) \<Longrightarrow>
         n \<noteq> name \<and> map_of (entries st) n = Some (File r c)"
    using m by (auto split: if_splits)
qed

lemma process_file_success_placed:
  assumes "process_file pf [] p st name = Some (Inr st')"
  shows "\<exists>readable content. map_of (entries st) name = Some (File readable content) \<and>
           node_at (entries st') (move_to (last (file_moves st')))
             (move_new_name (last (file_moves st'))) = Some (File readable content)"
proof -
  from process_file_success [OF assms] obtain readable content k q where
    src: "map_of (entries st) name = Some (File readable content)" and
    m: "map_of (entries st') =
       (map_of (entries st))(name := None,
         target_folder_of pf name \<mapsto> Dir q (AList.update (candidate name k) (File readable content)
            (folder_listing (entries st) (target_folder_of pf name))))" and
    rec: "file_moves st' = file_moves st @
       [\<lparr>move_file = name, move_from = ''Root Directory'', move_to = target_folder_of pf name,
         move_new_name = candidate name k\<rparr>]"
    by blast
  from m have "node_at (entries st') (target_folder_of pf name) (candidate name k) =
      Some (File readable content)"
    by (simp add: node_at_def folder_listing_def update_conv')
  with src rec show ?thesis by simp
qed

lemma process_file_failure_keeps:
  assumes "process_file pf [] p st name = Some (Inl (e, es'))"
  shows "iterdir_files es' = iterdir_files (entries st)"
    and "node_at (entries st) g n = Some x \<Longrightarrow> node_at es' g n = Some x"
    and "map_of (entries st) n = Some (File r c) \<Longrightarrow> map_of es' n = Some (File r c)"
proof -
  let ?es = "entries st" and ?folder = "target_folder_of pf name"
  from process_file_Inl [OF assms]
  consider (same) "es' = ?es"
    | (made) found where
        "dir_exists pf [] p ?es ?folder = Inr found"
        "(if \<not> found then mkdir pf [] p ?es ?folder else Inr ?es) = Inr es'"
    | (moved) found es1 new_name where
        "dir_exists pf [] p ?es ?folder = Inr found"
        "(if \<not> found then mkdir pf [] p ?es ?folder else Inr ?es) = Inr es1"
        "dedup_loop pf [] p es1 ?folder (stem name) (suffix name) name 1 = Some (Inr new_name)"
        "shutil_move [] p es1 name ?folder new_name = (Some e, es')"
    by blast
  then have "iterdir_files es' = iterdir_files ?es \<and>
     (node_at ?es g n = Some x \<longrightarrow> node_at es' g n = Some x) \<and>
     (map_of ?es n = Some (File r c) \<longrightarrow> map_of es' n = Some (File r c))"
  proof cases
    case same
    then show ?thesis by simp
  next
    case made
    note mk = made_map_of [OF made]
    note f = dir_exists_Inr(1) [OF made(1)]
    have "map_of ?es n = Some (File r c) \<longrightarrow> map_of es' n = Some (File r c)"
      using mk(1) f by auto
    with mk(2) mk(3) [of g n] show ?thesis by simp
  next
    case moved
    note mk = made_map_of [OF moved(1,2)]
    note f = dir_exists_Inr(1) [OF moved(1)]
    have files1: "map_of ?es n = Some (File r c) \<longrightarrow> map_of es1 n = Some (File r c)"
      using mk(1) f by auto
    from shutil_move_Some [OF moved(4)]
    consider (unchanged) "es' = es1"
      | (copied) readable content q sub where
          "map_of es1 ?folder = Some (Dir q sub)"
          "es' = AList.update ?folder (Dir q (AList.update new_name (File readable content) sub)) es1"
      by blast
    then show ?thesis
    proof cases
      case unchanged
      with mk files1 show ?thesis by simp
    next
      case copied
      from target_exists_Inr [OF dedup_loop_free [OF moved(3)]] copied(1)
      have free: "map_of sub new_name = None"
        by (simp add: node_at_def folder_listing_def)
      have "iterdir_files es' = iterdir_files es1"
        unfolding copied(2) using copied(1) by (rule iterdir_files_update_Dir)
      moreover have "node_at es1 g n = Some x \<longrightarrow> node_at es' g n = Some x"
        using copied free
        by (cases "g = ?folder") (auto simp: node_at_def folder_listing_def update_conv')
      moreover have "map_of es1 n = Some (File r c) \<longrightarrow> map_of es' n = Some (File r c)"
        using copied by (auto simp: update_conv')
      ultimately show ?thesis
        using mk(2) mk(3) [of g n] files1 by simp
    qed
  qed
  then show "iterdir_files es' = iterdir_files (entries st)"
    and "node_at (entries st) g n = Some x \<Longrightarrow> node_at es' g n = Some x"
    and "map_of (entries st) n = Some (File r c) \<Longrightarrow> map_of es' n = Some (File r c)"
    by simp_all
qed

subsection \<open>What the main loop keeps\<close>

lemma organize_loop_Cons_Inr:
  assumes "organize_loop pf links p (name # files) st = Some (Inr st')"
  obtains st1 where "process_file pf links p st name = Some (Inr st1)"
    and "organize_loop pf links p files st1 = Some (Inr st')"
  using assms by (auto split: option.splits sum.splits)

lemma organize_loop_success:
  assumes "organize_loop pf [] p files st = Some (Inr st')"
  shows "iterdir_files (entries st') = filter (\<lambda>n. n \<notin> set files) (iterdir_files (entries st)) \<and>
    (\<forall>g n x. node_at (entries st) g n = Some x \<longrightarrow> node_at (entries st') g n = Some x) \<and>
    (\<forall>n r c. n \<notin> set files \<longrightarrow> map_of (entries st) n = Some (File r c) \<longrightarrow>
       map_of (entries st') n = Some (File r c)) \<and>
    (\<forall>n r c. map_of (entries st') n = Some (File r c) \<longrightarrow>
       n \<notin> set files \<and> map_of (entries st) n = Some (File r c)) \<and>
    (\<exists>new. file_moves st' = file_moves st @ new \<and>
       (\<forall>m \<in> set new. \<exists>readable content.
          map_of (entries st) (move_file m) = Some (File readable content) \<and>
          node_at (entries st') (move_to m) (move_new_name m) = Some (File readable content)))"
  using assms
proof (induction files arbitrary: st)
  case Nil
  then show ?case by simp
next
  case (Cons name files)
  from Cons.prems obtain st1 where
    step: "process_file pf [] p st name = Some (Inr st1)" and
    rest: "organize_loop pf [] p files st1 = Some (Inr st')"
    by (rule organize_loop_Cons_Inr)
  note keep = process_file_success_keeps [OF step]
  from Cons.IH [OF rest] obtain new where
    i1: "iterdir_files (entries st') = filter (\<lambda>n. n \<notin> set files) (iterdir_files (entries st1))" and
    i2: "\<And>g n x. node_at (entries st1) g n = Some x \<Longrightarrow> node_at (entries st') g n = Some x" and
    i3: "\<And>n r c. n \<notin> set files \<Longrightarrow> map_of (entries st1) n = Some (File r c) \<Longrightarrow>
       map_of (entries st') n = Some (File r c)" and
    i4: "\<And>n r c. map_of (entries st') n = Some (File r c) \<Longrightarrow>
       n \<notin> set files \<and> map_of (entries st1) n = Some (File r c)" and
    i5: "file_moves st' = file_moves st1 @ new" and
    i6: "\<And>m. m \<in> set new \<Longrightarrow> \<exists>readable content.
          map_of (entries st1) (move_file m) = Some (File readable content) \<and>
          node_at (entries st') (move_to m) (move_new_name m) = Some (File readable content)"
    by blast
  from process_file_success [OF step] have
    fl: "iterdir_files (entries st1) = removeAll name (iterdir_files (entries st))"
    by blast
  from process_file_moves [OF step] obtain m0 where
    m0: "file_moves st1 = file_moves st @ [m0]" by blast
  from process_file_success_placed [OF step] m0 obtain readable0 content0 where
    p0: "map_of (entries st) name = Some (File readable0 content0)"
        "node_at (entries st1) (move_to m0) (move_new_name m0) = Some (File readable0 content0)"
    by auto
  from process_file_moves [OF step] m0 have f0: "move_file m0 = name" by auto
  have c1: "iterdir_files (entries st') =
      filter (\<lambda>n. n \<notin> set (name # files)) (iterdir_files (entries st))"
    unfolding i1 fl by (auto simp: removeAll_filter_not_eq intro!: filter_cong)
  have c2: "\<forall>g n x. node_at (entries st) g n = Some x \<longrightarrow> node_at (entries st') g n = Some x"
    using keep(1) i2 by blast
  have c3: "\<forall>n r c. n \<notin> set (name # files) \<longrightarrow> map_of (entries st) n = Some (File r c) \<longrightarrow>
       map_of (entries st') n = Some (File r c)"
    using keep(2) i3 by simp
  have c4: "\<forall>n r c. map_of (entries st') n = Some (File r c) \<longrightarrow>
       n \<notin> set (name # files) \<and> map_of (entries st) n = Some (File r c)"
    using keep(3) i4 by (metis set_ConsD)
  have c5: "file_moves st' = file_moves st @ (m0 # new)"
    using i5 m0 by simp
  have c6: "\<forall>m \<in> set (m0 # new). \<exists>readable content.
          map_of (entries st) (move_file m) = Some (File readable content) \<and>
          node_at (entries st') (move_to m) (move_new_name m) = Some (File readable content)"
  proof
    fix m assume "m \<in> set (m0 # new)"
    then consider "m = m0" | "m \<in> set new" by auto
    then show "\<exists>readable content.
          map_of (entries st) (move_file m) = Some (File readable content) \<and>
          node_at (entries st') (move_to m) (move_new_name m) = Some (File readable content)"
    proof cases
      case 1
      with p0 f0 i2 show ?thesis by blast
    next
      case 2
      from i6 [OF 2] keep(3) show ?thesis by blast
    qed
  qed
  from c1 c2 c3 c4 c5 c6 show ?case by blast
qed

lemma organize_loop_failure:
  assumes "organize_loop pf links p files st = Some (Inl (e, es'))"
  shows "\<exists>done name rest st1. files = done @ name # rest \<and>
           organize_loop pf links p done st = Some (Inr st1) \<and>
           process_file pf links p st1 name = Some (Inl (e, es'))"
  using assms
proof (induction files arbitrary: st)
  case Nil
  then show ?case by simp
next
  case (Cons name files)
  show ?case
  proof (cases "process_file pf links p st name")
    case None
    with Cons.prems show ?thesis by simp
  next
    case (Some r)
    show ?thesis
    proof (cases r)
      case (Inl err)
      with Some Cons.prems have "process_file pf links p st name = Some (Inl (e, es'))" by simp
      then have "name # files = [] @ name # files \<and>
           organize_loop pf links p [] st = Some (Inr st) \<and>
           process_file pf links p st name = Some (Inl (e, es'))" by simp
      then show ?thesis by blast
    next
      case (Inr st1)
      with Some Cons.prems have "organize_loop pf links p files st1 = Some (Inl (e, es'))" by simp
      from Cons.IH [OF this] obtain done' name' rest st2 where
        d: "files = done' @ name' # rest"
           "organize_loop pf links p done' st1 = Some (Inr st2)"
           "process_file pf links p st2 name' = Some (Inl (e, es'))"
        by blast
      from d(2) Some Inr have "organize_loop pf links p (name # done') st = Some (Inr st2)" by simp
      with d(1,3) have "name # files = (name # done') @ name' # rest \<and>
           organize_loop pf links p (name # done') st = Some (Inr st2) \<and>
           process_file pf links p st2 name' = Some (Inl (e, es'))" by simp
      then show ?thesis by blast
    qed
  qed
qed


section \<open>The whole run\<close>

lemma is_file_each_Inr:
  "is_file_each pf p xs = Inr files \<longleftrightarrow>
     (\<forall>n \<in> fst ` set xs. child_error pf p [n] = None) \<and> files = map fst (filter snd xs)"
proof (induction xs arbitrary: files)
  case Nil
  show ?case by auto
next
  case (Cons x xs)
  obtain n b where x: "x = (n, b)" by (cases x)
  show ?case
  proof (cases "child_error pf p [n]")
    case (Some e)
    with x show ?thesis by simp
  next
    case None
    show ?thesis
    proof (cases "is_file_each pf p xs")
      case (Inl e)
      with Cons.IH [of "map fst (filter snd xs)"]
      have "\<not> (\<forall>n \<in> fst ` set xs. child_error pf p [n] = None)" by simp
      with x None Inl show ?thesis by simp
    next
      case (Inr fs)
      with Cons.IH [of fs] have
        "(\<forall>n \<in> fst ` set xs. child_error pf p [n] = None)" "fs = map fst (filter snd xs)"
        by simp_all
      with x None Inr show ?thesis by auto
    qed
  qed
qed

lemma scan_Inr:
  "scan pf links p es = Inr files \<longleftrightarrow>
     can_read p \<and> (\<forall>n \<in> fst ` set es \<union> set links. child_error pf p [n] = None) \<and>
     files = iterdir_files es"
proof -
  let ?xs = "map (\<lambda>(n, nd). (n, is_file nd)) es @ map (\<lambda>l. (l, False)) links"
  have names: "fst ` set ?xs = fst ` set es \<union> set links"
    by (auto simp: image_iff split: prod.splits) force+
  have files: "map fst (filter snd ?xs) = iterdir_files es"
    by (induction es) (auto simp: iterdir_files_def filter_empty_conv)
  show ?thesis
    unfolding scan_def by (simp only: is_file_each_Inr names files split: if_splits) auto
qed


lemma organize_loop_files:
  assumes "organize_loop pf [] p files st = Some (Inr st')"
  shows "iterdir_files (entries st') = filter (\<lambda>n. n \<notin> set files) (iterdir_files (entries st))"
  using organize_loop_success [OF assms] by (rule conjunct1)

lemma organize_loop_keeps_files:
  assumes "organize_loop pf [] p files st = Some (Inr st')"
    and "n \<notin> set files" and "map_of (entries st) n = Some (File r c)"
  shows "map_of (entries st') n = Some (File r c)"
  using organize_loop_success [OF assms(1)] assms(2,3) by blast

lemma organize_loop_placed:
  assumes "organize_loop pf [] p files (initial_state es) = Some (Inr st')"
    and "m \<in> set (file_moves st')"
  shows "\<exists>readable content. map_of es (move_file m) = Some (File readable content) \<and>
           node_at (entries st') (move_to m) (move_new_name m) = Some (File readable content)"
proof -
  from organize_loop_success [OF assms(1)] obtain new where
    "file_moves st' = file_moves (initial_state es) @ new"
    "\<forall>m \<in> set new. \<exists>readable content.
        map_of (entries (initial_state es)) (move_file m) = Some (File readable content) \<and>
        node_at (entries st') (move_to m) (move_new_name m) = Some (File readable content)"
    by blast
  with assms(2) show ?thesis by simp
qed

lemma organize_loop_move_files:
  assumes "organize_loop pf links p files st = Some (Inr st')"
  shows "map move_file (file_moves st') = map move_file (file_moves st) @ files"
proof -
  have "map fst (map (\<lambda>m. (move_file m, move_from m, move_to m)) (file_moves st')) =
        map fst (map (\<lambda>m. (move_file m, move_from m, move_to m)) (file_moves st) @
          map (\<lambda>name. (name, ''Root Directory'', target_folder_of pf name)) files)"
    by (rule arg_cong [OF organize_loop_moves [OF assms]])
  then show ?thesis by (simp add: comp_def)
qed

lemma file_organizer_Inl:
  assumes "file_organizer_try pf links source_directory organize_by_type fs = Some (Inl e, fs')"
  shows "file_organizer pf links source_directory organize_by_type fs = Some (handled pf e, fs')"
  using assms by (cases e) (simp_all add: file_organizer_def handled_def)

lemma file_organizer_Inr:
  assumes "file_organizer_try pf links source_directory organize_by_type fs = Some (Inr result, fs')"
  shows "file_organizer pf links source_directory organize_by_type fs = Some (result, fs')"
  using assms by (simp add: file_organizer_def)

lemma file_organizer_try_success:
  assumes "scan pf links p es = Inr files" and "files \<noteq> []"
    and "organize_loop pf links p files (initial_state es) = Some (Inr st)"
  shows "file_organizer_try pf links source_directory organize_by_type (Found (Dir p es)) =
         Some (Inr (summary_text source_directory files (created_folders st) (file_moves st)),
               Found (Dir p (entries st)))"
  using assms by (simp add: file_organizer_try_def Let_def)

lemma file_organizer_try_failure:
  assumes "scan pf links p es = Inr files"
    and "organize_loop pf links p files (initial_state es) = Some (Inl (e, es'))"
  shows "file_organizer_try pf links source_directory organize_by_type (Found (Dir p es)) =
         Some (Inl e, Found (Dir p es'))"
proof -
  from assms(2) have "files \<noteq> []" by auto
  with assms show ?thesis
    by (simp add: file_organizer_try_def Let_def)
qed










section \<open>The claims of the specification\<close>

subsection \<open>The category of every file\<close>

text \<open>
  C1. The table of the code is the eleven-row table of the specification. The folder of
  a file is the first category of the table, in its order, whose extensions contain the
  lowered suffix of the file's name, and \<open>Other Files\<close> when no category does. The
  lowered suffix is what \<open>str.lower()\<close> gives on the platform; when the suffix is
  ASCII, it is the suffix with the letters \<open>A\<close> to \<open>Z\<close> folded, on every platform. A
  run of the main loop that ends without an exception records, for each file in turn, a
  move into that category.
\<close>

theorem category_first_match:
  "file_categories = spec_category_table \<and>
   target_folder_of pf name = spec_category spec_category_table (lower pf (suffix name)) \<and>
   (list_all is_ascii (suffix name) \<longrightarrow> lower pf (suffix name) = map lower_char (suffix name)) \<and>
   (organize_loop pf links p files st = Some (Inr st') \<longrightarrow>
      map (\<lambda>m. (move_file m, move_to m)) (file_moves st') =
        map (\<lambda>m. (move_file m, move_to m)) (file_moves st) @
        map (\<lambda>name. (name, spec_category spec_category_table (lower pf (suffix name)))) files)"
proof (intro conjI impI)
  show tab: "file_categories = spec_category_table"
    by (simp add: file_categories_def spec_category_table_def)
  show "target_folder_of pf name = spec_category spec_category_table (lower pf (suffix name))"
    unfolding tab [symmetric] by (rule target_folder_of_spec)
  show "lower pf (suffix name) = map lower_char (suffix name)"
    if "list_all is_ascii (suffix name)"
    using that by (simp add: lower_def)
  assume run: "organize_loop pf links p files st = Some (Inr st')"
  have "map (\<lambda>m. (move_file m, move_to m)) (file_moves st') =
        map (\<lambda>(f, r, t). (f, t))
          (map (\<lambda>m. (move_file m, move_from m, move_to m)) (file_moves st'))"
    by simp
  also have "\<dots> = map (\<lambda>(f, r, t). (f, t))
      (map (\<lambda>m. (move_file m, move_from m, move_to m)) (file_moves st) @
       map (\<lambda>name. (name, ''Root Directory'', target_folder_of pf name)) files)"
    using organize_loop_moves [OF run] by simp
  finally show "map (\<lambda>m. (move_file m, move_to m)) (file_moves st') =
        map (\<lambda>m. (move_file m, move_to m)) (file_moves st) @
        map (\<lambda>name. (name, spec_category spec_category_table (lower pf (suffix name)))) files"
    unfolding tab [symmetric] by (simp add: target_folder_of_spec)
qed

text \<open>
  An instance: a run over two files, and a name whose extension carries the Kelvin sign,
  which the platform of the examples lowers to \<open>k\<close>.
\<close>

theorem category_first_match_witness:
  "organize_loop example_platform [] rwx [''a.PNG'', ''notes'']
     (initial_state [(''a.PNG'', File True ''x''), (''notes'', File True ''y'')]) =
   Some (Inr \<lparr>entries = [(''Images'', Dir rwx [(''a.PNG'', File True ''x'')]),
                         (''Other Files'', Dir rwx [(''notes'', File True ''y'')])],
              organized_count = 2, created_folders = {''Images'', ''Other Files''},
              file_moves =
                [\<lparr>move_file = ''a.PNG'', move_from = ''Root Directory'',
                  move_to = ''Images'', move_new_name = ''a.PNG''\<rparr>,
                 \<lparr>move_file = ''notes'', move_from = ''Root Directory'',
                  move_to = ''Other Files'', move_new_name = ''notes''\<rparr>]\<rparr>) \<and>
   file_categories = spec_category_table \<and>
   list_all is_ascii (suffix ''Report.DocX'') \<and>
   lower example_platform (suffix ''Report.DocX'') = ''.docx'' \<and>
   target_folder_of example_platform ''Report.DocX'' = ''Word Documents'' \<and>
   spec_category spec_category_table (lower example_platform (suffix ''Report.DocX'')) =
     ''Word Documents'' \<and>
   target_folder_of example_platform (''clip.m'' @ [CHR 0xE2, CHR 0x84, CHR 0xAA] @ ''v'') =
     ''Videos'' \<and>
   spec_category spec_category_table (lower example_platform (suffix ''a.PNG'')) = ''Images'' \<and>
   spec_category spec_category_table (lower example_platform (suffix ''notes'')) = ''Other Files''"
proof -
  let ?st' = "\<lparr>entries = [(''Images'', Dir rwx [(''a.PNG'', File True ''x'')]),
                         (''Other Files'', Dir rwx [(''notes'', File True ''y'')])],
              organized_count = 2, created_folders = {''Images'', ''Other Files''},
              file_moves =
                [\<lparr>move_file = ''a.PNG'', move_from = ''Root Directory'',
                  move_to = ''Images'', move_new_name = ''a.PNG''\<rparr>,
                 \<lparr>move_file = ''notes'', move_from = ''Root Directory'',
                  move_to = ''Other Files'', move_new_name = ''notes''\<rparr>]\<rparr>"
  have run: "organize_loop example_platform [] rwx [''a.PNG'', ''notes'']
     (initial_state [(''a.PNG'', File True ''x''), (''notes'', File True ''y'')]) = Some (Inr ?st')"
    by code_simp
  have ascii: "list_all is_ascii (suffix ''Report.DocX'')"
    by code_simp
  have folded: "map lower_char (suffix ''Report.DocX'') = ''.docx''"
    by code_simp
  have word: "target_folder_of example_platform ''Report.DocX'' = ''Word Documents''"
    by code_simp
  have kelvin:
    "target_folder_of example_platform (''clip.m'' @ [CHR 0xE2, CHR 0x84, CHR 0xAA] @ ''v'') =
       ''Videos''"
    by code_simp
  note inst = category_first_match [of example_platform "''Report.DocX''" "[]" rwx
      "[''a.PNG'', ''notes'']"
      "initial_state [(''a.PNG'', File True ''x''), (''notes'', File True ''y'')]" ?st']
  from inst have tab: "file_categories = spec_category_table" by (rule conjunct1)
  from inst ascii folded have low: "lower example_platform (suffix ''Report.DocX'') = ''.docx''"
    by simp
  from inst word have w:
    "spec_category spec_category_table (lower example_platform (suffix ''Report.DocX'')) =
      ''Word Documents''" by simp
  from inst run have "map (\<lambda>m. (move_file m, move_to m)) (file_moves ?st') =
        map (\<lambda>m. (move_file m, move_to m))
          (file_moves (initial_state [(''a.PNG'', File True ''x''), (''notes'', File True ''y'')])) @
        map (\<lambda>name. (name, spec_category spec_category_table (lower example_platform (suffix name))))
          [''a.PNG'', ''notes'']"
    by blast
  then have "spec_category spec_category_table (lower example_platform (suffix ''a.PNG'')) = ''Images''"
    and "spec_category spec_category_table (lower example_platform (suffix ''notes'')) = ''Other Files''"
    by simp_all
  with run tab ascii low word w kelvin show ?thesis by (intro conjI)
qed

subsection \<open>Collisions\<close>



subsection \<open>The function always returns a string\<close>

text \<open>
  C3. For every source directory string, every value of the flag and whatever lies at
  the path, the function returns, and what it returns is a string of one of six kinds:
  the three validation messages, the permission message, the generic message with the
  description of the exception, or a summary. Every exception of the \<open>try\<close> block,
  those of the validation and of the scan among them, ends in one of the two handlers.
\<close>

theorem always_returns_a_string:
  "\<exists>result fs'.
     file_organizer pf links source_directory organize_by_type fs = Some (result, fs') \<and>
     (result = ''Error: Directory '' @ [CHR 0x27] @ source_directory @ [CHR 0x27] @ '' does not exist'' \<or>
      result = ''Error: '' @ [CHR 0x27] @ source_directory @ [CHR 0x27] @ '' is not a directory'' \<or>
      result = ''No files found in '' @ [CHR 0x27] @ source_directory @ [CHR 0x27] \<or>
      result = mark_error
         @ '' Error: Permission denied. Run as administrator or check file permissions.'' \<or>
      (\<exists>e. result = mark_error @ '' Error organizing files: '' @ str_e pf e) \<or>
      (\<exists>before_state created moves.
         result = summary_text source_directory before_state created moves))"
proof -
  have raised: ?thesis
    if "file_organizer_try pf links source_directory organize_by_type fs = Some (Inl e, fs')"
    for e fs'
  proof -
    from file_organizer_Inl [OF that]
    have eq: "file_organizer pf links source_directory organize_by_type fs =
        Some (handled pf e, fs')" .
    show ?thesis
      unfolding eq handled_def by (cases "e = PermissionError") (simp, simp, blast)
  qed
  show ?thesis
  proof (cases fs)
    case (Raises e)
    then have "file_organizer_try pf links source_directory organize_by_type fs = Some (Inl e, fs)"
      by (simp add: file_organizer_try_def)
    then show ?thesis by (rule raised)
  next
    case Missing
    then show ?thesis by (simp add: file_organizer_def file_organizer_try_def)
  next
    case (Found nd)
    show ?thesis
    proof (cases nd)
      case (File readable content)
      with Found show ?thesis by (simp add: file_organizer_def file_organizer_try_def)
    next
      case (Dir p es)
      show ?thesis
      proof (cases "scan pf links p es")
        case (Inl e)
        with Found Dir
        have "file_organizer_try pf links source_directory organize_by_type fs = Some (Inl e, fs)"
          by (simp add: file_organizer_try_def)
        then show ?thesis by (rule raised)
      next
        case (Inr files)
        show ?thesis
        proof (cases "files = []")
          case True
          with Found Dir Inr show ?thesis
            by (simp add: file_organizer_def file_organizer_try_def)
        next
          case False
          from organize_loop_total obtain r where
            r: "organize_loop pf links p files (initial_state es) = Some r" by blast
          show ?thesis
          proof (cases r)
            case (Inl err)
            obtain e es' where "err = (e, es')" by (cases err)
            with r Inl
            have "organize_loop pf links p files (initial_state es) = Some (Inl (e, es'))"
              by simp
            from file_organizer_try_failure [OF Inr this, of source_directory organize_by_type]
            have "file_organizer_try pf links source_directory organize_by_type fs =
                Some (Inl e, Found (Dir p es'))"
              using Found Dir by simp
            then show ?thesis by (rule raised)
          next
            case st: (Inr st)
            with r have "organize_loop pf links p files (initial_state es) = Some (Inr st)"
              by simp
            from file_organizer_try_success [OF Inr False this, of source_directory organize_by_type]
            have "file_organizer_try pf links source_directory organize_by_type fs =
                Some (Inr (summary_text source_directory files (created_folders st) (file_moves st)),
                      Found (Dir p (entries st)))"
              using Found Dir by simp
            from file_organizer_Inr [OF this] show ?thesis by simp blast
          qed
        qed
      qed
    qed
  qed
qed

subsection \<open>The flag\<close>

text \<open>
  C9. The parameter \<open>organize_by_type\<close> is never read: with \<open>True\<close> and with
  \<open>False\<close> the function returns the same string and leaves the same directory.
\<close>

theorem organize_by_type_unused:
  "file_organizer pf links source_directory True fs =
   file_organizer pf links source_directory False fs"
  by (simp add: file_organizer_def file_organizer_try_def)

subsection \<open>Validation\<close>

text \<open>
  C4, amended. Validation, in this order. When \<open>os.stat\<close> fails at the path with an
  error that \<open>exists()\<close> raises again, the function returns what the handlers make of
  it. A path at which nothing lies gives the message that the directory does not exist;
  a path at which a regular file lies gives the message that it is not a directory.
  For a directory, the scan comes next: when listing it or examining one of its entries
  raises, the function returns what the handlers make of that exception; when the
  directory may be read, every entry can be examined and none is a regular file, the
  function returns the message that no files were found, whatever the subdirectories
  hold. In each of these cases what lies at the path is left as it was.
\<close>

theorem validation_in_order:
  "file_organizer pf links source_directory organize_by_type (Raises e) =
     Some (if e = PermissionError
           then mark_error
             @ '' Error: Permission denied. Run as administrator or check file permissions.''
           else mark_error @ '' Error organizing files: '' @ str_e pf e,
           Raises e) \<and>
   file_organizer pf links source_directory organize_by_type Missing =
     Some (''Error: Directory '' @ [CHR 0x27] @ source_directory @ [CHR 0x27] @ '' does not exist'',
           Missing) \<and>
   file_organizer pf links source_directory organize_by_type (Found (File readable content)) =
     Some (''Error: '' @ [CHR 0x27] @ source_directory @ [CHR 0x27] @ '' is not a directory'',
           Found (File readable content)) \<and>
   (scan pf links p es = Inl e \<longrightarrow>
    file_organizer pf links source_directory organize_by_type (Found (Dir p es)) =
      Some (if e = PermissionError
            then mark_error
              @ '' Error: Permission denied. Run as administrator or check file permissions.''
            else mark_error @ '' Error organizing files: '' @ str_e pf e,
            Found (Dir p es))) \<and>
   (can_read p \<and> (\<forall>n \<in> fst ` set es \<union> set links. child_error pf p [n] = None) \<and>
    (\<forall>nd \<in> snd ` set es. \<not> is_file nd) \<longrightarrow>
    file_organizer pf links source_directory organize_by_type (Found (Dir p es)) =
      Some (''No files found in '' @ [CHR 0x27] @ source_directory @ [CHR 0x27],
            Found (Dir p es)))"
proof (intro conjI impI)
  have "file_organizer_try pf links source_directory organize_by_type (Raises e) =
      Some (Inl e, Raises e)"
    by (simp add: file_organizer_try_def)
  from file_organizer_Inl [OF this]
  show "file_organizer pf links source_directory organize_by_type (Raises e) =
     Some (if e = PermissionError
           then mark_error
             @ '' Error: Permission denied. Run as administrator or check file permissions.''
           else mark_error @ '' Error organizing files: '' @ str_e pf e,
           Raises e)"
    by (simp add: handled_def)
next
  show "file_organizer pf links source_directory organize_by_type Missing =
     Some (''Error: Directory '' @ [CHR 0x27] @ source_directory @ [CHR 0x27] @ '' does not exist'',
           Missing)"
    by (simp add: file_organizer_def file_organizer_try_def)
next
  show "file_organizer pf links source_directory organize_by_type (Found (File readable content)) =
     Some (''Error: '' @ [CHR 0x27] @ source_directory @ [CHR 0x27] @ '' is not a directory'',
           Found (File readable content))"
    by (simp add: file_organizer_def file_organizer_try_def)
next
  assume "scan pf links p es = Inl e"
  then have "file_organizer_try pf links source_directory organize_by_type (Found (Dir p es)) =
      Some (Inl e, Found (Dir p es))"
    by (simp add: file_organizer_try_def)
  from file_organizer_Inl [OF this]
  show "file_organizer pf links source_directory organize_by_type (Found (Dir p es)) =
      Some (if e = PermissionError
            then mark_error
              @ '' Error: Permission denied. Run as administrator or check file permissions.''
            else mark_error @ '' Error organizing files: '' @ str_e pf e,
            Found (Dir p es))"
    by (simp add: handled_def)
next
  assume a: "can_read p \<and> (\<forall>n \<in> fst ` set es \<union> set links. child_error pf p [n] = None) \<and>
    (\<forall>nd \<in> snd ` set es. \<not> is_file nd)"
  then have "iterdir_files es = []"
    by (auto simp: iterdir_files_def filter_empty_conv)
  with a have "scan pf links p es = Inr []"
    unfolding scan_Inr by simp
  then show "file_organizer pf links source_directory organize_by_type (Found (Dir p es)) =
      Some (''No files found in '' @ [CHR 0x27] @ source_directory @ [CHR 0x27],
            Found (Dir p es))"
    by (simp add: file_organizer_def file_organizer_try_def)
qed

theorem validation_in_order_witness:
  "file_organizer example_platform [''self''] ''/data'' True Missing =
     Some (''Error: Directory '' @ [CHR 0x27] @ ''/data'' @ [CHR 0x27] @ '' does not exist'',
           Missing) \<and>
   file_organizer example_platform [''self''] ''/data'' True (Found (File True ''text'')) =
     Some (''Error: '' @ [CHR 0x27] @ ''/data'' @ [CHR 0x27] @ '' is not a directory'',
           Found (File True ''text'')) \<and>
   scan example_platform [''self''] rwx
     [(replicate 256 (CHR ''a''), File True ''long''), (''b.txt'', File True ''b'')] =
     Inl (NameTooLongError [replicate 256 (CHR ''a'')]) \<and>
   file_organizer example_platform [''self''] ''/data'' True
       (Found (Dir rwx [(replicate 256 (CHR ''a''), File True ''long''), (''b.txt'', File True ''b'')])) =
     Some (mark_error @ '' Error organizing files: [Errno 36] File name too long'',
           Found (Dir rwx [(replicate 256 (CHR ''a''), File True ''long''),
                           (''b.txt'', File True ''b'')])) \<and>
   file_organizer example_platform [''self''] ''/data'' True
       (Found (Dir rwx [(''Images'', Dir rwx [(''x.png'', File True ''old'')]),
                        (''empty'', Dir \<lparr>can_read = False, can_write = False, can_search = False\<rparr> [])])) =
     Some (''No files found in '' @ [CHR 0x27] @ ''/data'' @ [CHR 0x27],
           Found (Dir rwx [(''Images'', Dir rwx [(''x.png'', File True ''old'')]),
                           (''empty'', Dir \<lparr>can_read = False, can_write = False, can_search = False\<rparr> [])]))"
proof -
  let ?long = "[(replicate 256 (CHR ''a''), File True ''long''), (''b.txt'', File True ''b'')]"
  let ?dirs = "[(''Images'', Dir rwx [(''x.png'', File True ''old'')]),
                (''empty'', Dir \<lparr>can_read = False, can_write = False, can_search = False\<rparr> [])]"
  have raised: "scan example_platform [''self''] rwx ?long =
      Inl (NameTooLongError [replicate 256 (CHR ''a'')])"
    by code_simp
  have descr: "str_e example_platform (NameTooLongError [replicate 256 (CHR ''a'')]) =
      ''[Errno 36] File name too long''"
    by (simp add: example_platform_def)
  have ok: "can_read rwx \<and>
      (\<forall>n \<in> fst ` set ?dirs \<union> set [''self'']. child_error example_platform rwx [n] = None) \<and>
      (\<forall>nd \<in> snd ` set ?dirs. \<not> is_file nd)"
    by (simp add: rwx_def child_error_def example_platform_def)
  note a = validation_in_order [of example_platform "[''self'']" "''/data''" True
      "NameTooLongError [replicate 256 (CHR ''a'')]" True "''text''" rwx ?long]
  note b = validation_in_order [of example_platform "[''self'']" "''/data''" True
      "NameTooLongError [replicate 256 (CHR ''a'')]" True "''text''" rwx ?dirs]
  from a have missing: "file_organizer example_platform [''self''] ''/data'' True Missing =
     Some (''Error: Directory '' @ [CHR 0x27] @ ''/data'' @ [CHR 0x27] @ '' does not exist'',
           Missing)"
    by blast
  from a have regular:
    "file_organizer example_platform [''self''] ''/data'' True (Found (File True ''text'')) =
     Some (''Error: '' @ [CHR 0x27] @ ''/data'' @ [CHR 0x27] @ '' is not a directory'',
           Found (File True ''text''))"
    by blast
  from a raised have
    "file_organizer example_platform [''self''] ''/data'' True (Found (Dir rwx ?long)) =
      Some (if NameTooLongError [replicate 256 (CHR ''a'')] = PermissionError
            then mark_error
              @ '' Error: Permission denied. Run as administrator or check file permissions.''
            else mark_error @ '' Error organizing files: ''
              @ str_e example_platform (NameTooLongError [replicate 256 (CHR ''a'')]),
            Found (Dir rwx ?long))"
    by blast
  then have long: "file_organizer example_platform [''self''] ''/data'' True (Found (Dir rwx ?long)) =
      Some (mark_error @ '' Error organizing files: [Errno 36] File name too long'',
            Found (Dir rwx ?long))"
    unfolding descr by simp
  from b ok have none:
    "file_organizer example_platform [''self''] ''/data'' True (Found (Dir rwx ?dirs)) =
      Some (''No files found in '' @ [CHR 0x27] @ ''/data'' @ [CHR 0x27], Found (Dir rwx ?dirs))"
    by blast
  from missing regular raised long none show ?thesis by (intro conjI)
qed

text \<open>
  C4 as stated, that the three messages are all that validation returns, fails in two
  ways. A path that \<open>os.stat\<close> refuses as too long does not exist, yet the function
  returns the generic message and not the message that the directory does not exist.
  And a directory that may not be read and holds no regular file, only a subdirectory,
  gives the permission message and not the message that no files were found.
\<close>

theorem validation_raises_counterexample:
  "file_organizer example_platform [] (replicate 5000 (CHR ''d'')) True
     (Raises (NameTooLongError [replicate 5000 (CHR ''d'')])) =
     Some (mark_error @ '' Error organizing files: [Errno 36] File name too long'',
           Raises (NameTooLongError [replicate 5000 (CHR ''d'')])) \<and>
   iterdir_files [(''sub'', Dir rwx [])] = [] \<and>
   file_organizer example_platform [] ''/data'' True
     (Found (Dir \<lparr>can_read = False, can_write = True, can_search = True\<rparr> [(''sub'', Dir rwx [])])) =
     Some (mark_error
             @ '' Error: Permission denied. Run as administrator or check file permissions.'',
           Found (Dir \<lparr>can_read = False, can_write = True, can_search = True\<rparr>
                    [(''sub'', Dir rwx [])]))"
  by (simp add: file_organizer_def file_organizer_try_def scan_def iterdir_files_def
      example_platform_def)

subsection \<open>Exceptions during the run\<close>

text \<open>
  C5. Let the \<open>try\<close> block raise the exception \<open>e\<close> on a directory with distinct
  names and without links to itself. The function returns the permission message when
  \<open>e\<close> is a \<open>PermissionError\<close> and the generic message with \<open>str(e)\<close> otherwise.
  Either the scan raised \<open>e\<close>, and the directory is as it was; or the scan splits into
  the files done, the file whose iteration raised \<open>e\<close>, and the rest, and the
  directory is left as the failing iteration left it. Then every file moved before is
  no longer a regular file of the source directory and lies, with its content, where its
  move record says; every file of the rest is still in the source directory with its
  content.
\<close>

theorem abort_without_rollback:
  assumes "distinct (map fst es)"
    and "file_organizer_try pf [] source_directory organize_by_type (Found (Dir p es)) =
           Some (Inl e, fs')"
  shows "file_organizer pf [] source_directory organize_by_type (Found (Dir p es)) =
        Some (if e = PermissionError
              then mark_error
                @ '' Error: Permission denied. Run as administrator or check file permissions.''
              else mark_error @ '' Error organizing files: '' @ str_e pf e,
              fs') \<and>
      (scan pf [] p es = Inl e \<and> fs' = Found (Dir p es) \<or>
       (\<exists>done name rest st1 es'.
          scan pf [] p es = Inr (iterdir_files es) \<and>
          iterdir_files es = done @ name # rest \<and>
          organize_loop pf [] p done (initial_state es) = Some (Inr st1) \<and>
          process_file pf [] p st1 name = Some (Inl (e, es')) \<and>
          fs' = Found (Dir p es') \<and>
          map move_file (file_moves st1) = done \<and>
          (\<forall>m \<in> set (file_moves st1).
             move_file m \<notin> set (iterdir_files es') \<and>
             (\<exists>readable content. map_of es (move_file m) = Some (File readable content) \<and>
                node_at es' (move_to m) (move_new_name m) = Some (File readable content))) \<and>
          (\<forall>n \<in> set rest. \<exists>readable content. map_of es n = Some (File readable content) \<and>
             map_of es' n = Some (File readable content))))"
proof -
  from file_organizer_Inl [OF assms(2)]
  have res: "file_organizer pf [] source_directory organize_by_type (Found (Dir p es)) =
        Some (if e = PermissionError
              then mark_error
                @ '' Error: Permission denied. Run as administrator or check file permissions.''
              else mark_error @ '' Error organizing files: '' @ str_e pf e,
              fs')"
    by (simp add: handled_def)
  show ?thesis
  proof (cases "scan pf [] p es")
    case (Inl e0)
    with assms(2) have "e0 = e" "fs' = Found (Dir p es)"
      by (simp_all add: file_organizer_try_def)
    with Inl res show ?thesis by simp
  next
    case (Inr files)
    then have files: "files = iterdir_files es" unfolding scan_Inr by simp
    with Inr have sc: "scan pf [] p es = Inr (iterdir_files es)" by simp
    from assms(2) sc obtain es' where
      loop: "organize_loop pf [] p (iterdir_files es) (initial_state es) = Some (Inl (e, es'))" and
      fs': "fs' = Found (Dir p es')"
      by (auto simp: file_organizer_try_def Let_def split: if_splits option.splits sum.splits)
    from organize_loop_failure [OF loop] obtain "done" name rest st1 where
      split: "iterdir_files es = done @ name # rest" and
      pre: "organize_loop pf [] p done (initial_state es) = Some (Inr st1)" and
      step: "process_file pf [] p st1 name = Some (Inl (e, es'))"
      by blast
    from organize_loop_move_files [OF pre]
    have names: "map move_file (file_moves st1) = done" by simp
    have files': "iterdir_files es' = filter (\<lambda>n. n \<notin> set done) (iterdir_files es)"
      using process_file_failure_keeps(1) [OF step] organize_loop_files [OF pre] by simp
    have moved: "\<forall>m \<in> set (file_moves st1).
           move_file m \<notin> set (iterdir_files es') \<and>
           (\<exists>readable content. map_of es (move_file m) = Some (File readable content) \<and>
              node_at es' (move_to m) (move_new_name m) = Some (File readable content))"
    proof
      fix m assume m: "m \<in> set (file_moves st1)"
      then have "move_file m \<in> set (map move_file (file_moves st1))" by simp
      then have "move_file m \<in> set done" unfolding names .
      then have a: "move_file m \<notin> set (iterdir_files es')" unfolding files' by simp
      from organize_loop_placed [OF pre m] obtain readable content where
        c: "map_of es (move_file m) = Some (File readable content)"
           "node_at (entries st1) (move_to m) (move_new_name m) = Some (File readable content)"
        by blast
      from process_file_failure_keeps(2) [OF step c(2)] c(1) a
      show "move_file m \<notin> set (iterdir_files es') \<and>
           (\<exists>readable content. map_of es (move_file m) = Some (File readable content) \<and>
              node_at es' (move_to m) (move_new_name m) = Some (File readable content))"
        by blast
    qed
    have left: "\<forall>n \<in> set rest. \<exists>readable content. map_of es n = Some (File readable content) \<and>
           map_of es' n = Some (File readable content)"
    proof
      fix n assume n: "n \<in> set rest"
      from iterdir_files_distinct [OF assms(1)] split have d: "distinct (done @ name # rest)"
        by simp
      with n have nd: "n \<notin> set done" by auto
      from n split have "n \<in> set (iterdir_files es)" by simp
      from iterdir_files_is_file [OF assms(1) this] obtain readable content where
        c: "map_of es n = Some (File readable content)" by blast
      then have "map_of (entries (initial_state es)) n = Some (File readable content)" by simp
      from organize_loop_keeps_files [OF pre nd this]
      have "map_of (entries st1) n = Some (File readable content)" .
      from process_file_failure_keeps(3) [OF step this] c
      show "\<exists>readable content. map_of es n = Some (File readable content) \<and>
              map_of es' n = Some (File readable content)"
        by blast
    qed
    from sc split pre step fs' names moved left
    have "\<exists>done name rest st1 es'.
          scan pf [] p es = Inr (iterdir_files es) \<and>
          iterdir_files es = done @ name # rest \<and>
          organize_loop pf [] p done (initial_state es) = Some (Inr st1) \<and>
          process_file pf [] p st1 name = Some (Inl (e, es')) \<and>
          fs' = Found (Dir p es') \<and>
          map move_file (file_moves st1) = done \<and>
          (\<forall>m \<in> set (file_moves st1).
             move_file m \<notin> set (iterdir_files es') \<and>
             (\<exists>readable content. map_of es (move_file m) = Some (File readable content) \<and>
                node_at es' (move_to m) (move_new_name m) = Some (File readable content))) \<and>
          (\<forall>n \<in> set rest. \<exists>readable content. map_of es n = Some (File readable content) \<and>
             map_of es' n = Some (File readable content))"
      by blast
    with res show ?thesis by blast
  qed
qed

text \<open>
  Two runs: in the first the folder \<open>PDF Documents\<close> may not be written, and the move
  of the second file raises \<open>PermissionError\<close> after the first file was moved; in the
  second \<open>Images\<close> is a regular file, and the move raises \<open>NotADirectoryError\<close>.
\<close>

theorem abort_without_rollback_witness:
  "distinct (map fst [(''a.png'', File True ''1''), (''b.pdf'', File True ''2''),
                      (''c.txt'', File True ''3''), (''Images'', Dir rwx []),
                      (''PDF Documents'',
                       Dir \<lparr>can_read = True, can_write = False, can_search = True\<rparr> [])]) \<and>
   file_organizer_try example_platform [] ''/data'' True
     (Found (Dir rwx [(''a.png'', File True ''1''), (''b.pdf'', File True ''2''),
                      (''c.txt'', File True ''3''), (''Images'', Dir rwx []),
                      (''PDF Documents'',
                       Dir \<lparr>can_read = True, can_write = False, can_search = True\<rparr> [])])) =
     Some (Inl PermissionError,
           Found (Dir rwx [(''b.pdf'', File True ''2''), (''c.txt'', File True ''3''),
                           (''Images'', Dir rwx [(''a.png'', File True ''1'')]),
                           (''PDF Documents'',
                            Dir \<lparr>can_read = True, can_write = False, can_search = True\<rparr> [])])) \<and>
   file_organizer example_platform [] ''/data'' True
     (Found (Dir rwx [(''a.png'', File True ''1''), (''b.pdf'', File True ''2''),
                      (''c.txt'', File True ''3''), (''Images'', Dir rwx []),
                      (''PDF Documents'',
                       Dir \<lparr>can_read = True, can_write = False, can_search = True\<rparr> [])])) =
     Some (mark_error
             @ '' Error: Permission denied. Run as administrator or check file permissions.'',
           Found (Dir rwx [(''b.pdf'', File True ''2''), (''c.txt'', File True ''3''),
                           (''Images'', Dir rwx [(''a.png'', File True ''1'')]),
                           (''PDF Documents'',
                            Dir \<lparr>can_read = True, can_write = False, can_search = True\<rparr> [])])) \<and>
   distinct (map fst [(''a.png'', File True ''1''), (''Images'', File True ''not a folder'')]) \<and>
   file_organizer_try example_platform [] ''/data'' True
     (Found (Dir rwx [(''a.png'', File True ''1''), (''Images'', File True ''not a folder'')])) =
     Some (Inl (NotADirectoryError ''Images'' ''a.png''),
           Found (Dir rwx [(''a.png'', File True ''1''), (''Images'', File True ''not a folder'')])) \<and>
   file_organizer example_platform [] ''/data'' True
     (Found (Dir rwx [(''a.png'', File True ''1''), (''Images'', File True ''not a folder'')])) =
     Some (mark_error @ '' Error organizing files: '' @ ''[Errno 20] Not a directory'',
           Found (Dir rwx [(''a.png'', File True ''1''), (''Images'', File True ''not a folder'')]))"
proof -
  let ?ro = "\<lparr>can_read = True, can_write = False, can_search = True\<rparr>"
  let ?es = "[(''a.png'', File True ''1''), (''b.pdf'', File True ''2''),
              (''c.txt'', File True ''3''), (''Images'', Dir rwx []),
              (''PDF Documents'', Dir ?ro [])]"
  let ?es' = "[(''b.pdf'', File True ''2''), (''c.txt'', File True ''3''),
               (''Images'', Dir rwx [(''a.png'', File True ''1'')]),
               (''PDF Documents'', Dir ?ro [])]"
  let ?fs = "[(''a.png'', File True ''1''), (''Images'', File True ''not a folder'')]"
  have d1: "distinct (map fst ?es)" by simp
  have r1: "file_organizer_try example_platform [] ''/data'' True (Found (Dir rwx ?es)) =
      Some (Inl PermissionError, Found (Dir rwx ?es'))"
    by code_simp
  have d2: "distinct (map fst ?fs)" by simp
  have r2: "file_organizer_try example_platform [] ''/data'' True (Found (Dir rwx ?fs)) =
      Some (Inl (NotADirectoryError ''Images'' ''a.png''), Found (Dir rwx ?fs))"
    by code_simp
  have descr: "str_e example_platform (NotADirectoryError ''Images'' ''a.png'') =
      ''[Errno 20] Not a directory''"
    by (simp add: example_platform_def)
  from abort_without_rollback [OF d1 r1]
  have "file_organizer example_platform [] ''/data'' True (Found (Dir rwx ?es)) =
       Some (if PermissionError = PermissionError
             then mark_error
               @ '' Error: Permission denied. Run as administrator or check file permissions.''
             else mark_error @ '' Error organizing files: ''
               @ str_e example_platform PermissionError,
             Found (Dir rwx ?es'))"
    by (rule conjunct1)
  then have m1: "file_organizer example_platform [] ''/data'' True (Found (Dir rwx ?es)) =
     Some (mark_error
             @ '' Error: Permission denied. Run as administrator or check file permissions.'',
           Found (Dir rwx ?es'))"
    by simp
  from abort_without_rollback [OF d2 r2]
  have "file_organizer example_platform [] ''/data'' True (Found (Dir rwx ?fs)) =
       Some (if NotADirectoryError ''Images'' ''a.png'' = PermissionError
             then mark_error
               @ '' Error: Permission denied. Run as administrator or check file permissions.''
             else mark_error @ '' Error organizing files: ''
               @ str_e example_platform (NotADirectoryError ''Images'' ''a.png''),
             Found (Dir rwx ?fs))"
    by (rule conjunct1)
  then have m2: "file_organizer example_platform [] ''/data'' True (Found (Dir rwx ?fs)) =
     Some (mark_error @ '' Error organizing files: '' @ ''[Errno 20] Not a directory'',
           Found (Dir rwx ?fs))"
    unfolding descr by simp
  from d1 r1 m1 d2 r2 m2 show ?thesis by (intro conjI)
qed

subsection \<open>A second run\<close>




subsection \<open>The summary\<close>



subsection \<open>Termination of the collision loop\<close>




subsection \<open>Files without an extension\<close>




end
